theory Spec2Isabelle
  imports Main "HOL-Library.Sublist"
begin

section \<open>Linear flows of processing nodes (mdp/linear\_flows.py)\<close>

text \<open>
  A shallow embedding of the classes \<^verbatim>\<open>Flow\<close> and \<^verbatim>\<open>CheckpointFlow\<close>.
  Python objects become records, exceptions become values of the datatype \<open>exc\<close>
  (a raising call returns \<open>Inl e\<close>), and every method that can change an object
  returns the changed object next to its result.

  The nodes themselves (\<^verbatim>\<open>mdp.Node\<close> and its subclasses) are not part of the file:
  a node is modelled as an object state together with the methods of its class, which
  are parameters of the model.  The same holds for the array library
  (\<^verbatim>\<open>numx.concatenate\<close>).
\<close>

subsection \<open>Exceptions\<close>

text \<open>
  \<open>PyException c m\<close> is any other subclass of \<^verbatim>\<open>Exception\<close> raised by a node or a
  callback, with its class name and message.  \<open>FlowExceptionCR m p fn\<close> carries the
  message, the attribute \<^verbatim>\<open>parent_exception\<close> and, when a crash dump was written, the
  attribute \<^verbatim>\<open>filename\<close>.
\<close>

datatype exc =
    PyException string string
  | TrainingFinishedException string
  | FlowException string
  | FlowExceptionCR string exc "string option"
  | ValueError string
  | TypeError string
  | IndexError string

fun exc_class :: "exc \<Rightarrow> string" where
  "exc_class (PyException c m) = c"
| "exc_class (TrainingFinishedException m) = ''TrainingFinishedException''"
| "exc_class (FlowException m) = ''FlowException''"
| "exc_class (FlowExceptionCR m p fn) = ''FlowExceptionCR''"
| "exc_class (ValueError m) = ''ValueError''"
| "exc_class (TypeError m) = ''TypeError''"
| "exc_class (IndexError m) = ''IndexError''"

fun exc_str :: "exc \<Rightarrow> string" where
  "exc_str (PyException c m) = m"
| "exc_str (TrainingFinishedException m) = m"
| "exc_str (FlowException m) = m"
| "exc_str (FlowExceptionCR m p fn) = m"
| "exc_str (ValueError m) = m"
| "exc_str (TypeError m) = m"
| "exc_str (IndexError m) = m"

fun parent_exception :: "exc \<Rightarrow> exc option" where
  "parent_exception (FlowExceptionCR m p fn) = Some p"
| "parent_exception e = None"

fun filename :: "exc \<Rightarrow> string option" where
  "filename (FlowExceptionCR m p fn) = fn"
| "filename e = None"

subsection \<open>The format \<^verbatim>\<open>%d\<close>\<close>

definition digit_char :: "nat \<Rightarrow> char" where
  "digit_char d = ''0123456789'' ! d"

function nat_digits :: "nat \<Rightarrow> string" where
  "nat_digits n = (if n < 10 then [digit_char n]
                   else nat_digits (n div 10) @ [digit_char (n mod 10)])"
  by pat_completeness auto
termination
  by (relation "measure (\<lambda>n. n)") auto

declare nat_digits.simps [simp del]

definition fmt_d :: "int \<Rightarrow> string" where
  "fmt_d i = (if i < 0 then CHR ''-'' # nat_digits (nat (- i)) else nat_digits (nat i))"

subsection \<open>Nodes\<close>

text \<open>
  The interface of \<^verbatim>\<open>mdp.Node\<close> that the flow uses.  \<open>'s\<close> is the state of a node
  object, \<open>'x\<close> the type of data arrays.  A method that can change the object returns the
  new state, also when it raises.
\<close>

record ('s, 'x) node_class =
  cname :: string
  c_input_dim :: "'s \<Rightarrow> int option"
  c_output_dim :: "'s \<Rightarrow> int option"
  c_is_trainable :: "'s \<Rightarrow> bool"
  c_is_training :: "'s \<Rightarrow> bool"
  c_get_remaining_train_phase :: "'s \<Rightarrow> int"
  c_train_seq_len :: "'s \<Rightarrow> nat"
  c_train :: "'s \<Rightarrow> 'x \<Rightarrow> 'x list \<Rightarrow> exc option \<times> 's"
  c_stop_training :: "'s \<Rightarrow> exc option \<times> 's"
  c_execute :: "'s \<Rightarrow> 'x \<Rightarrow> (exc + 'x) \<times> 's"
  c_inverse :: "'s \<Rightarrow> 'x \<Rightarrow> (exc + 'x) \<times> 's"

record ('s, 'x) node =
  klass :: "('s, 'x) node_class"
  nstate :: 's

definition type_name :: "('s, 'x) node \<Rightarrow> string" where
  "type_name n = cname (klass n)"

definition input_dim :: "('s, 'x) node \<Rightarrow> int option" where
  "input_dim n = c_input_dim (klass n) (nstate n)"

definition output_dim :: "('s, 'x) node \<Rightarrow> int option" where
  "output_dim n = c_output_dim (klass n) (nstate n)"

definition is_trainable :: "('s, 'x) node \<Rightarrow> bool" where
  "is_trainable n = c_is_trainable (klass n) (nstate n)"

definition is_training :: "('s, 'x) node \<Rightarrow> bool" where
  "is_training n = c_is_training (klass n) (nstate n)"

definition get_remaining_train_phase :: "('s, 'x) node \<Rightarrow> int" where
  "get_remaining_train_phase n = c_get_remaining_train_phase (klass n) (nstate n)"

definition train_seq_len :: "('s, 'x) node \<Rightarrow> nat" where
  "train_seq_len n = c_train_seq_len (klass n) (nstate n)"

definition node_train :: "('s, 'x) node \<Rightarrow> 'x \<Rightarrow> 'x list \<Rightarrow> exc option \<times> ('s, 'x) node" where
  "node_train n x arg = (case c_train (klass n) (nstate n) x arg of
     (r, s') \<Rightarrow> (r, n\<lparr>nstate := s'\<rparr>))"

definition node_stop_training :: "('s, 'x) node \<Rightarrow> exc option \<times> ('s, 'x) node" where
  "node_stop_training n = (case c_stop_training (klass n) (nstate n) of
     (r, s') \<Rightarrow> (r, n\<lparr>nstate := s'\<rparr>))"

definition node_execute :: "('s, 'x) node \<Rightarrow> 'x \<Rightarrow> (exc + 'x) \<times> ('s, 'x) node" where
  "node_execute n x = (case c_execute (klass n) (nstate n) x of
     (r, s') \<Rightarrow> (r, n\<lparr>nstate := s'\<rparr>))"

definition node_inverse :: "('s, 'x) node \<Rightarrow> 'x \<Rightarrow> (exc + 'x) \<times> ('s, 'x) node" where
  "node_inverse n x = (case c_inverse (klass n) (nstate n) x of
     (r, s') \<Rightarrow> (r, n\<lparr>nstate := s'\<rparr>))"

subsection \<open>Dimension consistency\<close>

text \<open>
  Python's \<^verbatim>\<open>out and inp\<close>: the left operand when it is false (\<^verbatim>\<open>None\<close> or \<^verbatim>\<open>0\<close>),
  the right operand otherwise.
\<close>

definition py_and :: "int option \<Rightarrow> int option \<Rightarrow> int option" where
  "py_and out inp = (case out of None \<Rightarrow> None
                     | Some d \<Rightarrow> if d = 0 then Some 0 else inp)"

text \<open>
  \<^verbatim>\<open>"dimensions mismatch: %d != %d" % (out, inp)\<close>; the format \<^verbatim>\<open>%d\<close> raises a
  \<^verbatim>\<open>TypeError\<close> for \<^verbatim>\<open>None\<close>.
\<close>

definition mismatch_msg :: "int \<Rightarrow> int \<Rightarrow> string" where
  "mismatch_msg out inp = ''dimensions mismatch: '' @ fmt_d out @ '' != '' @ fmt_d inp"

definition mismatch_errstr :: "int option \<Rightarrow> int option \<Rightarrow> exc + string" where
  "mismatch_errstr out inp = (case (out, inp) of
      (Some a, Some b) \<Rightarrow> Inr (mismatch_msg a b)
    | _ \<Rightarrow> Inl (TypeError ''%d format: a number is required, not NoneType''))"

definition check_dimension_consistency :: "int option \<Rightarrow> int option \<Rightarrow> exc + unit" where
  "check_dimension_consistency out inp =
     (if py_and out inp \<noteq> None \<and> out \<noteq> inp then
        (case mismatch_errstr out inp of
           Inl e \<Rightarrow> Inl e
         | Inr errstr \<Rightarrow> Inl (ValueError errstr))
      else Inr ())"

text \<open>The loop \<^verbatim>\<open>for i in range(1, len_flow)\<close> over the adjacent pairs.\<close>

fun check_nodes_consistency :: "('s, 'x) node list \<Rightarrow> exc + unit" where
  "check_nodes_consistency [] = Inr ()"
| "check_nodes_consistency [n] = Inr ()"
| "check_nodes_consistency (m # n # ns) =
     (case check_dimension_consistency (output_dim m) (input_dim n) of
        Inl e \<Rightarrow> Inl e
      | Inr u \<Rightarrow> check_nodes_consistency (n # ns))"

text \<open>
  The adjacency invariant in the words of the specification: for every adjacent pair,
  if the output dimension of the left unit and the input dimension of the right unit
  are both known, they are equal.
\<close>

definition adjacent_ok :: "('s, 'x) node \<Rightarrow> ('s, 'x) node \<Rightarrow> bool" where
  "adjacent_ok m n = (case (output_dim m, input_dim n) of
      (Some a, Some b) \<Rightarrow> a = b
    | _ \<Rightarrow> True)"

fun adjacency_invariant :: "('s, 'x) node list \<Rightarrow> bool" where
  "adjacency_invariant [] = True"
| "adjacency_invariant [n] = True"
| "adjacency_invariant (m # n # ns) = (adjacent_ok m n \<and> adjacency_invariant (n # ns))"

subsection \<open>Python lists: indexing, slicing, assignment, deletion\<close>

text \<open>
  The list operations the container delegates to (CPython 2.6 and later):
  negative indices count from the end, an index out of range raises
  \<^verbatim>\<open>IndexError\<close>, a slice is clipped to the list, a slice of step \<open>1\<close> may be
  replaced by a sequence of any length, and an extended slice only by one of its own
  length.
\<close>

datatype slice = Slice "int option" "int option" "int option"

datatype key = KInt int | KSlice slice

definition norm_index :: "nat \<Rightarrow> int \<Rightarrow> nat option" where
  "norm_index len i =
     (let j = (if i < 0 then i + int len else i)
      in if 0 \<le> j \<and> j < int len then Some (nat j) else None)"

definition clip :: "int \<Rightarrow> int \<Rightarrow> int \<Rightarrow> int" where
  "clip len step v =
     (let v1 = (if v < 0 then v + len else v)
      in if v1 < 0 then (if step < 0 then - 1 else 0)
         else if v1 \<ge> len then (if step < 0 then len - 1 else len)
         else v1)"

definition slice_indices :: "nat \<Rightarrow> slice \<Rightarrow> exc + (int \<times> int \<times> int)" where
  "slice_indices n sl = (case sl of Slice start stop st \<Rightarrow>
     (let step = (case st of None \<Rightarrow> 1 | Some s \<Rightarrow> s); len = int n
      in if step = 0 then Inl (ValueError ''slice step cannot be zero'')
         else Inr ((case start of None \<Rightarrow> (if step < 0 then len - 1 else 0)
                               | Some v \<Rightarrow> clip len step v),
                   (case stop of None \<Rightarrow> (if step < 0 then - 1 else len)
                              | Some v \<Rightarrow> clip len step v),
                   step)))"

definition slice_positions :: "nat \<Rightarrow> int \<times> int \<times> int \<Rightarrow> nat list" where
  "slice_positions n b = (case b of (start, stop, step) \<Rightarrow>
     (if step > 0
      then filter (\<lambda>i. start \<le> int i \<and> int i < stop \<and> (int i - start) mod step = 0) [0..<n]
      else rev (filter (\<lambda>i. stop < int i \<and> int i \<le> start \<and> (start - int i) mod (- step) = 0)
                  [0..<n])))"

definition list_getitem_int :: "'a list \<Rightarrow> int \<Rightarrow> exc + 'a" where
  "list_getitem_int xs i = (case norm_index (length xs) i of
       None \<Rightarrow> Inl (IndexError ''list index out of range'')
     | Some j \<Rightarrow> Inr (xs ! j))"

definition list_getitem_slice :: "'a list \<Rightarrow> slice \<Rightarrow> exc + 'a list" where
  "list_getitem_slice xs sl = (case slice_indices (length xs) sl of
       Inl e \<Rightarrow> Inl e
     | Inr b \<Rightarrow> Inr (map (\<lambda>i. xs ! i) (slice_positions (length xs) b)))"

definition list_setitem_int :: "'a list \<Rightarrow> int \<Rightarrow> 'a \<Rightarrow> exc + 'a list" where
  "list_setitem_int xs i v = (case norm_index (length xs) i of
       None \<Rightarrow> Inl (IndexError ''list assignment index out of range'')
     | Some j \<Rightarrow> Inr (xs[j := v]))"

definition size_msg :: "nat \<Rightarrow> nat \<Rightarrow> string" where
  "size_msg a b = ''attempt to assign sequence of size '' @ fmt_d (int a)
                  @ '' to extended slice of size '' @ fmt_d (int b)"

definition list_setitem_slice :: "'a list \<Rightarrow> slice \<Rightarrow> 'a list \<Rightarrow> exc + 'a list" where
  "list_setitem_slice xs sl vs = (case slice_indices (length xs) sl of
       Inl e \<Rightarrow> Inl e
     | Inr (start, stop, step) \<Rightarrow>
         if step = 1 then Inr (take (nat start) xs @ vs @ drop (nat (max start stop)) xs)
         else (let ps = slice_positions (length xs) (start, stop, step)
               in if length vs \<noteq> length ps
                  then Inl (ValueError (size_msg (length vs) (length ps)))
                  else Inr (fold (\<lambda>(p, v) ys. ys[p := v]) (zip ps vs) xs)))"

definition list_delitem_int :: "'a list \<Rightarrow> int \<Rightarrow> exc + 'a list" where
  "list_delitem_int xs i = (case norm_index (length xs) i of
       None \<Rightarrow> Inl (IndexError ''list assignment index out of range'')
     | Some j \<Rightarrow> Inr (take j xs @ drop (Suc j) xs))"

definition list_delitem_slice :: "'a list \<Rightarrow> slice \<Rightarrow> exc + 'a list" where
  "list_delitem_slice xs sl = (case slice_indices (length xs) sl of
       Inl e \<Rightarrow> Inl e
     | Inr (start, stop, step) \<Rightarrow>
         if step = 1 then Inr (take (nat start) xs @ drop (nat (max start stop)) xs)
         else (let ps = slice_positions (length xs) (start, stop, step)
               in Inr (map (\<lambda>i. xs ! i) (filter (\<lambda>i. i \<notin> set ps) [0..<length xs]))))"

definition list_delitem :: "'a list \<Rightarrow> key \<Rightarrow> exc + 'a list" where
  "list_delitem xs k = (case k of KInt i \<Rightarrow> list_delitem_int xs i
                                | KSlice sl \<Rightarrow> list_delitem_slice xs sl)"

subsection \<open>The container\<close>

datatype flow_class = Flow | SimpleFlow | CheckpointFlow

fun class_name :: "flow_class \<Rightarrow> string" where
  "class_name Flow = ''Flow''"
| "class_name SimpleFlow = ''SimpleFlow''"
| "class_name CheckpointFlow = ''CheckpointFlow''"

text \<open>The values of \<^verbatim>\<open>_crash_recovery\<close>: a number or a file name.\<close>

datatype crash_rec = CR_int int | CR_str string

text \<open>
  A flow object: its class, the attributes \<^verbatim>\<open>flow\<close>, \<^verbatim>\<open>verbose\<close> and
  \<^verbatim>\<open>_crash_recovery\<close> set by the constructor, and the further entries of its
  \<^verbatim>\<open>__dict__\<close> (\<open>attrs\<close>).  Progress output (\<^verbatim>\<open>print\<close>) is not modelled.
\<close>

record ('s, 'x, 'v) flow_obj =
  fclass :: flow_class
  flow :: "('s, 'x) node list"
  verbose :: int
  crash_recovery :: crash_rec
  attrs :: "string \<rightharpoonup> 'v"

text \<open>
  The arguments of the container methods are dynamically typed: a node, a flow, a
  list, or an object of another type (given by the name of its type), which is
  neither a node nor iterable.
\<close>

datatype ('s, 'x, 'v) pyval =
    PNode "('s, 'x) node"
  | PFlow "('s, 'x, 'v) flow_obj"
  | PList "('s, 'x, 'v) pyval list"
  | PObj string

fun py_type_name :: "('s, 'x, 'v) pyval \<Rightarrow> string" where
  "py_type_name (PNode n) = type_name n"
| "py_type_name (PFlow f) = class_name (fclass f)"
| "py_type_name (PList vs) = ''list''"
| "py_type_name (PObj t) = t"

text \<open>\<^verbatim>\<open>Flow.__init__\<close>; the deprecation warning of \<^verbatim>\<open>SimpleFlow\<close> is not recorded.\<close>

definition init :: "flow_class \<Rightarrow> ('s, 'x) node list \<Rightarrow> int \<Rightarrow> exc + ('s, 'x, 'v) flow_obj" where
  "init c nodes v = (case check_nodes_consistency nodes of
       Inl e \<Rightarrow> Inl e
     | Inr u \<Rightarrow> Inr \<lparr>fclass = c, flow = nodes, verbose = v,
                    crash_recovery = CR_int 0, attrs = Map.empty\<rparr>)"

definition check_value_type_isnode :: "('s, 'x, 'v) pyval \<Rightarrow> exc + ('s, 'x) node" where
  "check_value_type_isnode v = (case v of
       PNode n \<Rightarrow> Inr n
     | _ \<Rightarrow> Inl (TypeError ''flow item must be Node instance''))"

text \<open>Iterating over a value, as \<^verbatim>\<open>map\<close> and the slice assignment do.\<close>

fun elements :: "('s, 'x, 'v) pyval \<Rightarrow> exc + ('s, 'x, 'v) pyval list" where
  "elements (PList vs) = Inr vs"
| "elements (PFlow f) = Inr (map PNode (flow f))"
| "elements v = Inl (TypeError ''argument 2 to map() must support iteration'')"

text \<open>\<^verbatim>\<open>map(self._check_value_type_isnode, value)\<close>: the first failing element raises.\<close>

fun map_check_isnode :: "('s, 'x, 'v) pyval list \<Rightarrow> exc + ('s, 'x) node list" where
  "map_check_isnode [] = Inr []"
| "map_check_isnode (v # vs) = (case check_value_type_isnode v of
       Inl e \<Rightarrow> Inl e
     | Inr n \<Rightarrow> (case map_check_isnode vs of
                   Inl e \<Rightarrow> Inl e
                 | Inr ns \<Rightarrow> Inr (n # ns)))"

text \<open>
  The last two statements of \<^verbatim>\<open>__setitem__\<close> and \<^verbatim>\<open>__delitem__\<close>: check the copy,
  and only then assign it to \<^verbatim>\<open>self.flow\<close>.
\<close>

definition check_and_accept ::
  "('s, 'x, 'v) flow_obj \<Rightarrow> ('s, 'x) node list \<Rightarrow> (exc + unit) \<times> ('s, 'x, 'v) flow_obj" where
  "check_and_accept self flow_copy = (case check_nodes_consistency flow_copy of
       Inl e \<Rightarrow> (Inl e, self)
     | Inr u \<Rightarrow> (Inr (), self\<lparr>flow := flow_copy\<rparr>))"

definition setitem ::
  "('s, 'x, 'v) flow_obj \<Rightarrow> key \<Rightarrow> ('s, 'x, 'v) pyval \<Rightarrow> (exc + unit) \<times> ('s, 'x, 'v) flow_obj" where
  "setitem self k value = (case k of
       KSlice sl \<Rightarrow>
         (case elements value of
            Inl e \<Rightarrow> (Inl e, self)
          | Inr vs \<Rightarrow>
              (case map_check_isnode vs of
                 Inl e \<Rightarrow> (Inl e, self)
               | Inr ns \<Rightarrow>
                   (case list_setitem_slice (flow self) sl ns of
                      Inl e \<Rightarrow> (Inl e, self)
                    | Inr flow_copy \<Rightarrow> check_and_accept self flow_copy)))
     | KInt i \<Rightarrow>
         (case check_value_type_isnode value of
            Inl e \<Rightarrow> (Inl e, self)
          | Inr n \<Rightarrow>
              (case list_setitem_int (flow self) i n of
                 Inl e \<Rightarrow> (Inl e, self)
               | Inr flow_copy \<Rightarrow> check_and_accept self flow_copy)))"

definition delitem ::
  "('s, 'x, 'v) flow_obj \<Rightarrow> key \<Rightarrow> (exc + unit) \<times> ('s, 'x, 'v) flow_obj" where
  "delitem self k = (case list_delitem (flow self) k of
       Inl e \<Rightarrow> (Inl e, self)
     | Inr flow_copy \<Rightarrow> check_and_accept self flow_copy)"

definition getitem :: "('s, 'x, 'v) flow_obj \<Rightarrow> key \<Rightarrow> exc + ('s, 'x, 'v) pyval" where
  "getitem self k = (case k of
       KSlice sl \<Rightarrow>
         (case list_getitem_slice (flow self) sl of
            Inl e \<Rightarrow> Inl e
          | Inr flow_slice \<Rightarrow>
              (case check_nodes_consistency flow_slice of
                 Inl e \<Rightarrow> Inl e
               | Inr u \<Rightarrow> (case init (fclass self) flow_slice 0 of
                             Inl e \<Rightarrow> Inl e
                           | Inr f \<Rightarrow> Inr (PFlow f))))
     | KInt i \<Rightarrow>
         (case list_getitem_int (flow self) i of
            Inl e \<Rightarrow> Inl e
          | Inr n \<Rightarrow> Inr (PNode n)))"

definition concat_msg :: "string \<Rightarrow> string" where
  "concat_msg t = ''can only concatenate flow (not '' @ [CHR 0x27] @ t @ [CHR 0x27] @ '') to flow''"

text \<open>\<^verbatim>\<open>__add__\<close> returns a new flow and leaves both operands as they are.\<close>

definition add ::
  "('s, 'x, 'v) flow_obj \<Rightarrow> ('s, 'x, 'v) pyval \<Rightarrow> exc + ('s, 'x, 'v) flow_obj" where
  "add self other = (case other of
       PFlow o_flow \<Rightarrow>
         (let flow_copy = flow self @ flow o_flow
          in case check_nodes_consistency flow_copy of
               Inl e \<Rightarrow> Inl e
             | Inr u \<Rightarrow> init (fclass self) flow_copy 0)
     | _ \<Rightarrow> Inl (TypeError (concat_msg (py_type_name other))))"

definition len_slice :: "('s, 'x, 'v) flow_obj \<Rightarrow> key" where
  "len_slice self = KSlice (Slice (Some (int (length (flow self))))
                                  (Some (int (length (flow self)))) None)"

definition append_node ::
  "('s, 'x, 'v) flow_obj \<Rightarrow> ('s, 'x, 'v) pyval \<Rightarrow> (exc + unit) \<times> ('s, 'x, 'v) flow_obj" where
  "append_node self x = setitem self (len_slice self) (PList [x])"

definition extend_flow ::
  "('s, 'x, 'v) flow_obj \<Rightarrow> ('s, 'x, 'v) pyval \<Rightarrow> (exc + unit) \<times> ('s, 'x, 'v) flow_obj" where
  "extend_flow self x = (case x of
       PFlow x_flow \<Rightarrow> setitem self (len_slice self) x
     | _ \<Rightarrow> (Inl (TypeError (concat_msg (py_type_name x))), self))"

definition insert_node ::
  "('s, 'x, 'v) flow_obj \<Rightarrow> int \<Rightarrow> ('s, 'x, 'v) pyval \<Rightarrow> (exc + unit) \<times> ('s, 'x, 'v) flow_obj" where
  "insert_node self i x = setitem self (KSlice (Slice (Some i) (Some i) None)) (PList [x])"

definition pop ::
  "('s, 'x, 'v) flow_obj \<Rightarrow> int \<Rightarrow> (exc + ('s, 'x, 'v) pyval) \<times> ('s, 'x, 'v) flow_obj" where
  "pop self i = (case getitem self (KInt i) of
       Inl e \<Rightarrow> (Inl e, self)
     | Inr x \<Rightarrow> (case delitem self (KInt i) of
                   (Inl e, self') \<Rightarrow> (Inl e, self')
                 | (Inr u, self') \<Rightarrow> (Inr x, self')))"

subsection \<open>The environment of a flow\<close>

text \<open>
  Training and execution change more than the flow: warnings are issued and crash
  dumps are written.  The world holds the flow object, the files written so far (a
  dump file holds the pickled flow), the warnings issued, and the names the module
  \<^verbatim>\<open>tempfile\<close> hands out.
\<close>

record ('s, 'x, 'v) world =
  the_flow :: "('s, 'x, 'v) flow_obj"
  files :: "string \<rightharpoonup> ('s, 'x, 'v) flow_obj"
  warnings :: "string list"
  tmp_name :: "nat \<Rightarrow> string"
  tmp_count :: nat

definition nodes :: "('s, 'x, 'v) world \<Rightarrow> ('s, 'x) node list" where
  "nodes w = flow (the_flow w)"

definition set_node :: "('s, 'x, 'v) world \<Rightarrow> nat \<Rightarrow> ('s, 'x) node \<Rightarrow> ('s, 'x, 'v) world" where
  "set_node w i n = w\<lparr>the_flow := (the_flow w)\<lparr>flow := (flow (the_flow w))[i := n]\<rparr>\<rparr>"

definition warn :: "('s, 'x, 'v) world \<Rightarrow> string \<Rightarrow> ('s, 'x, 'v) world" where
  "warn w wrnstr = w\<lparr>warnings := warnings w @ [wrnstr]\<rparr>"

definition nl :: string where
  "nl = [CHR 0x0A]"

subsection \<open>Crash recovery\<close>

definition set_crash_recovery :: "('s, 'x, 'v) flow_obj \<Rightarrow> crash_rec \<Rightarrow> ('s, 'x, 'v) flow_obj" where
  "set_crash_recovery self state = self\<lparr>crash_recovery := state\<rparr>"

text \<open>The truth value of \<^verbatim>\<open>rec\<close>: a number other than zero, or a string that is not empty.\<close>

fun truthy :: "crash_rec \<Rightarrow> bool" where
  "truthy (CR_int i) = (i \<noteq> 0)"
| "truthy (CR_str s) = (s \<noteq> [])"

text \<open>
  Modelled from the spec: \<^verbatim>\<open>mdp.utils.CrashRecoveryException.dump\<close>, which is not
  among the sources.  The specification says that a full serialized snapshot of the
  pipeline is written to a named or engine-chosen location; the call returns the name
  of the file.
\<close>

definition dump :: "('s, 'x, 'v) world \<Rightarrow> string option \<Rightarrow> string \<times> ('s, 'x, 'v) world" where
  "dump w name = (case name of
       Some fn \<Rightarrow> (fn, w\<lparr>files := (files w)(fn \<mapsto> the_flow w)\<rparr>)
     | None \<Rightarrow> (let fn = tmp_name w (tmp_count w)
                in (fn, w\<lparr>files := (files w)(fn \<mapsto> the_flow w),
                          tmp_count := Suc (tmp_count w)\<rparr>)))"

definition dumpinfo :: "string \<Rightarrow> string" where
  "dumpinfo name = nl @ ''A crash dump is available on: '' @ [CHR 0x22] @ name @ [CHR 0x22]"

text \<open>
  \<^verbatim>\<open>FlowExceptionCR.__init__(errstr, flow_instance, parent_exception)\<close>; the crashing
  object is the flow of the world.
\<close>

definition new_FlowExceptionCR ::
  "('s, 'x, 'v) world \<Rightarrow> string \<Rightarrow> exc \<Rightarrow> exc \<times> ('s, 'x, 'v) world" where
  "new_FlowExceptionCR w errstr parent =
     (let rec = crash_recovery (the_flow w)
      in if truthy rec then
           (let name = (case rec of CR_str s \<Rightarrow> Some s | CR_int i \<Rightarrow> None)
            in case dump w name of
                 (fn, w') \<Rightarrow> (FlowExceptionCR (errstr @ dumpinfo fn) parent (Some fn), w'))
         else (FlowExceptionCR errstr parent None, w))"

text \<open>
  \<^verbatim>\<open>traceback.format_exception\<close> of the standard library; the stack frames of the
  traceback are not modelled.
\<close>

definition format_exception :: "exc \<Rightarrow> string" where
  "format_exception e = ''Traceback (most recent call last):'' @ nl
                        @ exc_class e @ '': '' @ exc_str e @ nl"

definition act_str :: "int \<Rightarrow> string \<Rightarrow> string" where
  "act_str nodenr tname = nl @ ''! Exception in node #'' @ fmt_d nodenr
                          @ '' ('' @ tname @ ''):'' @ nl"

definition crash_errstr :: "int \<Rightarrow> string \<Rightarrow> exc \<Rightarrow> string" where
  "crash_errstr nodenr tname except =
     nl @ replicate 40 CHR ''-'' @ act_str nodenr tname @ ''Node Traceback:'' @ nl
     @ format_exception except @ replicate 40 CHR ''-''"

text \<open>
  \<^verbatim>\<open>_propagate_exception\<close> always raises: the result is the exception raised and the
  world after it.  \<^verbatim>\<open>self.flow[nodenr]\<close> raises an \<^verbatim>\<open>IndexError\<close> of its own when
  \<^verbatim>\<open>nodenr\<close> is out of range.
\<close>

definition propagate_exception ::
  "('s, 'x, 'v) world \<Rightarrow> exc \<Rightarrow> int \<Rightarrow> exc \<times> ('s, 'x, 'v) world" where
  "propagate_exception w except nodenr = (case list_getitem_int (nodes w) nodenr of
       Inl e \<Rightarrow> (e, w)
     | Inr n \<Rightarrow> new_FlowExceptionCR w (crash_errstr nodenr (type_name n) except) except)"

subsection \<open>Execution and inverse execution\<close>

text \<open>The body of the loop of \<^verbatim>\<open>_execute_seq\<close>, for the indices of \<^verbatim>\<open>range(nodenr+1)\<close>.\<close>

fun execute_loop ::
  "('s, 'x, 'v) world \<Rightarrow> nat list \<Rightarrow> 'x \<Rightarrow> (exc + 'x) \<times> ('s, 'x, 'v) world" where
  "execute_loop w [] x = (Inr x, w)"
| "execute_loop w (i # rest) x =
     (if i < length (nodes w) then
        (case node_execute (nodes w ! i) x of
           (Inr y, n') \<Rightarrow> execute_loop (set_node w i n') rest y
         | (Inl e, n') \<Rightarrow>
             (case propagate_exception (set_node w i n') e (int i) of
                (e', w') \<Rightarrow> (Inl e', w')))
      else (case propagate_exception w (IndexError ''list index out of range'') (int i) of
              (e', w') \<Rightarrow> (Inl e', w')))"

definition execute_seq ::
  "('s, 'x, 'v) world \<Rightarrow> 'x \<Rightarrow> int option \<Rightarrow> (exc + 'x) \<times> ('s, 'x, 'v) world" where
  "execute_seq w x nodenr =
     (let nr = (case nodenr of None \<Rightarrow> int (length (nodes w)) - 1 | Some k \<Rightarrow> k)
      in execute_loop w [0..<nat (nr + 1)] x)"

text \<open>The input of \<^verbatim>\<open>execute\<close> and \<^verbatim>\<open>inverse\<close>: one array, or an iterable of arrays.\<close>

datatype 'x data_in = Ndarray 'x | Iterable "'x list"

text \<open>\<^verbatim>\<open>for x in iterator: res.append(self._execute_seq(x, nodenr))\<close>\<close>

fun execute_each ::
  "('s, 'x, 'v) world \<Rightarrow> 'x list \<Rightarrow> int option \<Rightarrow> (exc + 'x list) \<times> ('s, 'x, 'v) world" where
  "execute_each w [] nodenr = (Inr [], w)"
| "execute_each w (x # xs) nodenr =
     (case execute_seq w x nodenr of
        (Inl e, w') \<Rightarrow> (Inl e, w')
      | (Inr y, w') \<Rightarrow>
          (case execute_each w' xs nodenr of
             (Inl e, w'') \<Rightarrow> (Inl e, w'')
           | (Inr ys, w'') \<Rightarrow> (Inr (y # ys), w'')))"

text \<open>\<open>concatenate\<close> stands for \<^verbatim>\<open>numx.concatenate\<close>, a parameter of the model.\<close>

definition execute ::
  "('x list \<Rightarrow> exc + 'x) \<Rightarrow> ('s, 'x, 'v) world \<Rightarrow> 'x data_in \<Rightarrow> int option
     \<Rightarrow> (exc + 'x) \<times> ('s, 'x, 'v) world" where
  "execute concatenate w iterator nodenr = (case iterator of
       Ndarray x \<Rightarrow> execute_seq w x nodenr
     | Iterable xs \<Rightarrow>
         (case execute_each w xs nodenr of
            (Inl e, w') \<Rightarrow> (Inl e, w')
          | (Inr res, w') \<Rightarrow> (concatenate res, w')))"

fun inverse_loop ::
  "('s, 'x, 'v) world \<Rightarrow> nat list \<Rightarrow> 'x \<Rightarrow> (exc + 'x) \<times> ('s, 'x, 'v) world" where
  "inverse_loop w [] x = (Inr x, w)"
| "inverse_loop w (i # rest) x =
     (if i < length (nodes w) then
        (case node_inverse (nodes w ! i) x of
           (Inr y, n') \<Rightarrow> inverse_loop (set_node w i n') rest y
         | (Inl e, n') \<Rightarrow>
             (case propagate_exception (set_node w i n') e (int i) of
                (e', w') \<Rightarrow> (Inl e', w')))
      else (case propagate_exception w (IndexError ''list index out of range'') (int i) of
              (e', w') \<Rightarrow> (Inl e', w')))"

text \<open>\<^verbatim>\<open>for i in range(len(flow)-1, -1, -1)\<close>\<close>

definition inverse_seq ::
  "('s, 'x, 'v) world \<Rightarrow> 'x \<Rightarrow> (exc + 'x) \<times> ('s, 'x, 'v) world" where
  "inverse_seq w x = inverse_loop w (rev [0..<length (nodes w)]) x"

fun inverse_each ::
  "('s, 'x, 'v) world \<Rightarrow> 'x list \<Rightarrow> (exc + 'x list) \<times> ('s, 'x, 'v) world" where
  "inverse_each w [] = (Inr [], w)"
| "inverse_each w (x # xs) =
     (case inverse_seq w x of
        (Inl e, w') \<Rightarrow> (Inl e, w')
      | (Inr y, w') \<Rightarrow>
          (case inverse_each w' xs of
             (Inl e, w'') \<Rightarrow> (Inl e, w'')
           | (Inr ys, w'') \<Rightarrow> (Inr (y # ys), w'')))"

definition inverse_flow ::
  "('x list \<Rightarrow> exc + 'x) \<Rightarrow> ('s, 'x, 'v) world \<Rightarrow> 'x data_in
     \<Rightarrow> (exc + 'x) \<times> ('s, 'x, 'v) world" where
  "inverse_flow concatenate w iterator = (case iterator of
       Ndarray x \<Rightarrow> inverse_seq w x
     | Iterable xs \<Rightarrow>
         (case inverse_each w xs of
            (Inl e, w') \<Rightarrow> (Inl e, w')
          | (Inr res, w') \<Rightarrow> (concatenate res, w')))"

subsection \<open>Training\<close>

text \<open>
  An item produced by a data iterator is an array, or a list or tuple whose first
  element is the array and whose other elements are further arguments of
  \<^verbatim>\<open>node.train\<close>.
\<close>

datatype 'x item = Arr 'x | Seq "'x list"

text \<open>
  The entries of \<^verbatim>\<open>data_iterators\<close>: \<^verbatim>\<open>None\<close>; a list, which every \<^verbatim>\<open>for\<close> loop
  traverses from its start; a generator and an iterator object of another type (such
  as \<^verbatim>\<open>iter(a_list)\<close>), which hand out every item once; and an object without
  \<^verbatim>\<open>__iter__\<close>.  The items a generator or iterator still holds are its state.
\<close>

datatype 'x source =
    SNone
  | SList "'x item list"
  | SGenerator "'x item list"
  | SIterator "'x item list"
  | SNotIterable

text \<open>The argument of \<^verbatim>\<open>train\<close>: an array, a list, or a value of another type.\<close>

datatype 'x iterators_arg = ItArray 'x | ItList "'x source list" | ItOther string

definition is_None :: "'x source \<Rightarrow> bool" where
  "is_None s = (case s of SNone \<Rightarrow> True | _ \<Rightarrow> False)"

definition has_iter :: "'x source \<Rightarrow> bool" where
  "has_iter s = (case s of SNone \<Rightarrow> False | SNotIterable \<Rightarrow> False | _ \<Rightarrow> True)"

definition is_generator :: "'x source \<Rightarrow> bool" where
  "is_generator s = (case s of SGenerator its \<Rightarrow> True | _ \<Rightarrow> False)"

text \<open>
  \<^verbatim>\<open>x[1:]\<close> and \<^verbatim>\<open>x[0]\<close> for a list or tuple, \<^verbatim>\<open>()\<close> and \<^verbatim>\<open>x\<close> otherwise; \<^verbatim>\<open>x[0]\<close>
  raises for an empty sequence.
\<close>

definition split_item :: "'x item \<Rightarrow> exc + ('x \<times> 'x list)" where
  "split_item it = (case it of
       Arr x \<Rightarrow> Inr (x, [])
     | Seq [] \<Rightarrow> Inl (IndexError ''list index out of range'')
     | Seq (x # arg) \<Rightarrow> Inr (x, arg))"

text \<open>The body of \<^verbatim>\<open>for x in data_iterator\<close> in \<^verbatim>\<open>_train_node\<close>.\<close>

definition train_item ::
  "('s, 'x, 'v) world \<Rightarrow> nat \<Rightarrow> 'x item \<Rightarrow> exc option \<times> ('s, 'x, 'v) world" where
  "train_item w nodenr it = (case split_item it of
       Inl e \<Rightarrow> (Some e, w)
     | Inr (x, arg) \<Rightarrow>
         (case (if nodenr > 0 then execute_seq w x (Some (int nodenr - 1)) else (Inr x, w)) of
            (Inl e, w') \<Rightarrow> (Some e, w')
          | (Inr y, w') \<Rightarrow>
              (case node_train (nodes w' ! nodenr) y arg of
                 (r, n') \<Rightarrow> (r, set_node w' nodenr n'))))"

text \<open>One traversal; the third component holds the items that were not reached.\<close>

fun train_items ::
  "('s, 'x, 'v) world \<Rightarrow> nat \<Rightarrow> 'x item list
     \<Rightarrow> exc option \<times> ('s, 'x, 'v) world \<times> 'x item list" where
  "train_items w nodenr [] = (None, w, [])"
| "train_items w nodenr (it # rest) =
     (case train_item w nodenr it of
        (Some e, w') \<Rightarrow> (Some e, w', rest)
      | (None, w') \<Rightarrow> train_items w' nodenr rest)"

definition not_iterable_msg :: string where
  "not_iterable_msg = [CHR 0x27] @ ''NoneType'' @ [CHR 0x27] @ '' object is not iterable''"

definition for_loop ::
  "('s, 'x, 'v) world \<Rightarrow> 'x source \<Rightarrow> nat
     \<Rightarrow> exc option \<times> ('s, 'x, 'v) world \<times> 'x source" where
  "for_loop w data_iterator nodenr = (case data_iterator of
       SNone \<Rightarrow> (Some (TypeError not_iterable_msg), w, SNone)
     | SNotIterable \<Rightarrow> (Some (TypeError ''object is not iterable''), w, SNotIterable)
     | SList its \<Rightarrow>
         (case train_items w nodenr its of (r, w', rest) \<Rightarrow> (r, w', SList its))
     | SGenerator its \<Rightarrow>
         (case train_items w nodenr its of (r, w', rest) \<Rightarrow> (r, w', SGenerator rest))
     | SIterator its \<Rightarrow>
         (case train_items w nodenr its of (r, w', rest) \<Rightarrow> (r, w', SIterator rest)))"

text \<open>
  The loop \<^verbatim>\<open>while True\<close> of \<^verbatim>\<open>_train_node\<close>.  Whether it ends depends on the node, so
  the result is an option: \<open>None\<close> stands for a loop that never ends.
\<close>

partial_function (option) train_while ::
  "('s, 'x, 'v) world \<Rightarrow> 'x source \<Rightarrow> nat
     \<Rightarrow> (exc option \<times> ('s, 'x, 'v) world \<times> 'x source) option" where
  "train_while w data_iterator nodenr =
     (case for_loop w data_iterator nodenr of
        (Some e, w', it') \<Rightarrow> Some (Some e, w', it')
      | (None, w', it') \<Rightarrow>
          if get_remaining_train_phase (nodes w' ! nodenr) > 1 then
            (case node_stop_training (nodes w' ! nodenr) of
               (Some e, n') \<Rightarrow> Some (Some e, set_node w' nodenr n', it')
             | (None, n') \<Rightarrow> train_while (set_node w' nodenr n') it' nodenr)
          else Some (None, w', it'))"

definition not_trainable_wrnstr :: "nat \<Rightarrow> string" where
  "not_trainable_wrnstr nodenr = nl @ ''! Node '' @ fmt_d (int nodenr) @ '' is not trainable''
     @ nl @ ''You probably need a '' @ [CHR 0x27] @ ''None'' @ [CHR 0x27]
     @ '' iterator for this node. Continuing anyway.''"

definition is_training_errstr :: "nat \<Rightarrow> string" where
  "is_training_errstr nodenr = nl @ ''! Node '' @ fmt_d (int nodenr) @ '' is training''
     @ '' but received a '' @ [CHR 0x27] @ ''None'' @ [CHR 0x27] @ '' iterator.''"

definition finished_wrnstr :: "nat \<Rightarrow> string" where
  "finished_wrnstr nodenr = nl @ ''! Node '' @ fmt_d (int nodenr)
     @ '' training phase already finished'' @ '' Continuing anyway.''"

text \<open>The two \<^verbatim>\<open>except\<close> clauses of \<^verbatim>\<open>_train_node\<close>.\<close>

definition train_except ::
  "nat \<Rightarrow> exc option \<times> ('s, 'x, 'v) world \<times> 'x source
     \<Rightarrow> (exc + unit) \<times> ('s, 'x, 'v) world \<times> 'x source" where
  "train_except nodenr res = (case res of
       (None, w', it') \<Rightarrow> (Inr (), w', it')
     | (Some (TrainingFinishedException m), w', it') \<Rightarrow>
         (Inr (), warn w' (finished_wrnstr nodenr), it')
     | (Some e, w', it') \<Rightarrow>
         (case propagate_exception w' e (int nodenr) of
            (e', w'') \<Rightarrow> (Inl e', w'', it')))"

text \<open>
  \<^verbatim>\<open>_train_node\<close>.  It is called with an index of \<^verbatim>\<open>range(len(self.flow))\<close>; an
  index out of range raises in \<^verbatim>\<open>self.flow[nodenr]\<close>.
\<close>

definition train_node ::
  "('s, 'x, 'v) world \<Rightarrow> 'x source \<Rightarrow> nat
     \<Rightarrow> ((exc + unit) \<times> ('s, 'x, 'v) world \<times> 'x source) option" where
  "train_node w data_iterator nodenr =
     (if nodenr < length (nodes w) then
        (let node = nodes w ! nodenr
         in if \<not> is_None data_iterator \<and> \<not> is_trainable node then
              Some (Inr (), warn w (not_trainable_wrnstr nodenr), data_iterator)
            else if is_None data_iterator \<and> is_training node then
              Some (Inl (FlowException (is_training_errstr nodenr)), w, data_iterator)
            else if is_None data_iterator \<and> \<not> is_trainable node then
              Some (Inr (), w, data_iterator)
            else map_option (train_except nodenr) (train_while w data_iterator nodenr))
      else Some (Inl (IndexError ''list index out of range''), w, data_iterator))"

subsubsection \<open>Validation of the data iterators\<close>

definition not_list_errstr :: "string \<Rightarrow> string" where
  "not_list_errstr t = [CHR 0x27] @ ''data_iterators'' @ [CHR 0x27] @ '' is '' @ t
     @ '' must be either a list of iterators or an array''"

definition element_errstr :: "nat \<Rightarrow> string" where
  "element_errstr i = ''Element number '' @ fmt_d (int i) @ '' in the ''
     @ ''iterators list is not a list or iterator.''"

definition count_errstr :: "nat \<Rightarrow> nat \<Rightarrow> string" where
  "count_errstr a b = fmt_d (int a) @ '' data iterators specified, '' @ fmt_d (int b)
     @ '' needed''"

definition generator_errstr :: "nat \<Rightarrow> string" where
  "generator_errstr i = ''Node number '' @ fmt_d (int i) @ '' has multiple training phases ''
     @ ''but the corresponding iterator is a generator. ''
     @ ''This is not allowed since generators cannot be ''
     @ [CHR 0x27] @ ''rewinded'' @ [CHR 0x27] @ '' for further training.''"

text \<open>\<^verbatim>\<open>for i in range(len(data_iterators))\<close>: every element is \<^verbatim>\<open>None\<close> or iterable.\<close>

fun check_iterable :: "nat \<Rightarrow> 'x source list \<Rightarrow> exc + unit" where
  "check_iterable i [] = Inr ()"
| "check_iterable i (el # els) =
     (if \<not> is_None el \<and> \<not> has_iter el then Inl (FlowException (element_errstr i))
      else check_iterable (Suc i) els)"

text \<open>
  \<^verbatim>\<open>for i in range(len(flow))\<close>: no node with several training phases has a generator.
\<close>

fun check_generators :: "nat \<Rightarrow> ('s, 'x) node list \<Rightarrow> 'x source list \<Rightarrow> exc + unit" where
  "check_generators i (node # ns) (iter # its) =
     (if train_seq_len node > 1 \<and> is_generator iter
      then Inl (FlowException (generator_errstr i))
      else check_generators (Suc i) ns its)"
| "check_generators i ns its = Inr ()"

definition train_check_iterators ::
  "('s, 'x, 'v) flow_obj \<Rightarrow> 'x iterators_arg \<Rightarrow> exc + 'x source list" where
  "train_check_iterators self arg = (case arg of
       ItOther t \<Rightarrow> Inl (FlowException (not_list_errstr t))
     | _ \<Rightarrow>
         (let data_iterators = (case arg of
                ItArray x \<Rightarrow> replicate (length (flow self)) (SList [Arr x])
              | ItList ds \<Rightarrow> ds
              | ItOther t \<Rightarrow> [])
          in case check_iterable 0 data_iterators of
               Inl e \<Rightarrow> Inl e
             | Inr u \<Rightarrow>
                 if length data_iterators \<noteq> length (flow self)
                 then Inl (FlowException
                             (count_errstr (length data_iterators) (length (flow self))))
                 else (case check_generators 0 (flow self) data_iterators of
                         Inl e \<Rightarrow> Inl e
                       | Inr u \<Rightarrow> Inr data_iterators)))"

subsubsection \<open>\<^verbatim>\<open>Flow.train\<close>\<close>

definition close_last_node ::
  "('s, 'x, 'v) world \<Rightarrow> (exc + unit) \<times> ('s, 'x, 'v) world" where
  "close_last_node w =
     (let last_index = int (length (nodes w)) - 1
      in case list_getitem_int (nodes w) (- 1) of
           Inl e \<Rightarrow> (case propagate_exception w e last_index of (e', w') \<Rightarrow> (Inl e', w'))
         | Inr n \<Rightarrow>
             (case node_stop_training n of
                (None, n') \<Rightarrow> (Inr (), set_node w (nat last_index) n')
              | (Some (TrainingFinishedException m), n') \<Rightarrow>
                  (Inr (), set_node w (nat last_index) n')
              | (Some e, n') \<Rightarrow>
                  (case propagate_exception (set_node w (nat last_index) n') e last_index of
                     (e', w') \<Rightarrow> (Inl e', w'))))"

text \<open>\<^verbatim>\<open>for i in range(len(self.flow)): self._train_node(data_iterators[i], i)\<close>\<close>

fun train_nodes ::
  "('s, 'x, 'v) world \<Rightarrow> 'x source list \<Rightarrow> nat list
     \<Rightarrow> ((exc + unit) \<times> ('s, 'x, 'v) world \<times> 'x source list) option" where
  "train_nodes w its [] = Some (Inr (), w, its)"
| "train_nodes w its (i # rest) =
     (case train_node w (its ! i) i of
        None \<Rightarrow> None
      | Some (Inl e, w', it') \<Rightarrow> Some (Inl e, w', its[i := it'])
      | Some (Inr u, w', it') \<Rightarrow> train_nodes w' (its[i := it']) rest)"

text \<open>
  The iterators an array stands for are local to \<^verbatim>\<open>train\<close>; a list of iterators is
  the caller's, and its generators and iterators are left as the training consumed
  them.
\<close>

definition iterators_after :: "'x iterators_arg \<Rightarrow> 'x source list \<Rightarrow> 'x iterators_arg" where
  "iterators_after arg its = (case arg of ItList ds \<Rightarrow> ItList its | _ \<Rightarrow> arg)"

definition train ::
  "('s, 'x, 'v) world \<Rightarrow> 'x iterators_arg
     \<Rightarrow> ((exc + unit) \<times> ('s, 'x, 'v) world \<times> 'x iterators_arg) option" where
  "train w arg = (case train_check_iterators (the_flow w) arg of
       Inl e \<Rightarrow> Some (Inl e, w, arg)
     | Inr data_iterators \<Rightarrow>
         (case train_nodes w data_iterators [0..<length (nodes w)] of
            None \<Rightarrow> None
          | Some (Inl e, w', its') \<Rightarrow> Some (Inl e, w', iterators_after arg its')
          | Some (Inr u, w', its') \<Rightarrow>
              (case close_last_node w' of
                 (r, w'') \<Rightarrow> Some (r, w'', iterators_after arg its'))))"

subsection \<open>Checkpoints\<close>





text \<open>
  \<^verbatim>\<open>self.__dict__.update(dict)\<close>.  The model keeps the entries a checkpoint adds in
  \<open>attrs\<close>; it does not follow a dictionary that names \<^verbatim>\<open>flow\<close>, \<^verbatim>\<open>verbose\<close> or
  \<^verbatim>\<open>_crash_recovery\<close>, which would replace the attribute of that name.
\<close>

definition reserved_names :: "string list" where
  "reserved_names = [''flow'', ''verbose'', ''_crash_recovery'']"






subsection \<open>The specification's notions\<close>

text \<open>
  The data model of the specification gives a known dimension as a positive integer.
  The container theorems only need that no known output dimension is zero.
\<close>

definition no_zero_dim :: "('s, 'x) node list \<Rightarrow> bool" where
  "no_zero_dim ns = (\<forall>n \<in> set ns. output_dim n \<noteq> Some 0)"

text \<open>
  A dimension-mismatch error that identifies the two conflicting dimensions of an
  adjacent pair of the sequence.
\<close>

definition dimension_mismatch :: "('s, 'x) node list \<Rightarrow> exc \<Rightarrow> bool" where
  "dimension_mismatch ns e =
     (\<exists>i a b. Suc i < length ns \<and> output_dim (ns ! i) = Some a \<and>
        input_dim (ns ! Suc i) = Some b \<and> a \<noteq> b \<and> e = ValueError (mismatch_msg a b))"

text \<open>
  The outcome of a mutating operation on \<open>self\<close> whose prospective new sequence is
  \<open>new\<close> and whose result, when it succeeds, is \<open>r\<close>: committed when the invariant
  holds, and otherwise a dimension mismatch with the container as it was.
\<close>

definition validated_commit ::
  "('s, 'x, 'v) flow_obj \<Rightarrow> ('s, 'x) node list \<Rightarrow> 'r
     \<Rightarrow> (exc + 'r) \<times> ('s, 'x, 'v) flow_obj \<Rightarrow> bool" where
  "validated_commit self new r res =
     (if adjacency_invariant new then res = (Inr r, self\<lparr>flow := new\<rparr>)
      else (\<exists>e. dimension_mismatch new e \<and> res = (Inl e, self)))"

text \<open>The same for an operation that returns a new container of class \<open>c\<close>.\<close>

definition validated_new ::
  "flow_class \<Rightarrow> ('s, 'x) node list \<Rightarrow> exc + ('s, 'x, 'v) flow_obj \<Rightarrow> bool" where
  "validated_new c new res =
     (if adjacency_invariant new
      then res = Inr \<lparr>fclass = c, flow = new, verbose = 0, crash_recovery = CR_int 0,
                      attrs = Map.empty\<rparr>
      else (\<exists>e. dimension_mismatch new e \<and> res = Inl e))"

text \<open>The operand is a container (of class \<^verbatim>\<open>Flow\<close> or a subclass).\<close>

definition is_flow :: "('s, 'x, 'v) pyval \<Rightarrow> bool" where
  "is_flow v = (case v of PFlow f \<Rightarrow> True | _ \<Rightarrow> False)"

definition is_node :: "('s, 'x, 'v) pyval \<Rightarrow> bool" where
  "is_node v = (case v of PNode n \<Rightarrow> True | _ \<Rightarrow> False)"

text \<open>A sequence of units: a container, or a list all of whose elements are nodes.\<close>

definition is_unit_sequence :: "('s, 'x, 'v) pyval \<Rightarrow> bool" where
  "is_unit_sequence v = (case v of
       PFlow f \<Rightarrow> True
     | PList vs \<Rightarrow> list_all is_node vs
     | _ \<Rightarrow> False)"

subsection \<open>Example nodes\<close>

text \<open>
  A node class for concrete instances of the theorems.  Its state holds the two
  dimensions, the number of training phases, the number of phases closed so far and a
  log of the calls received.  A data array is a list of integers; \<^verbatim>\<open>execute\<close> maps
  every element \<open>v\<close> to \<open>2 * v + 1\<close>, and every method that takes data raises for an
  array with a negative element.
\<close>

datatype event = Trained "int list" "int list list" | Stopped | Executed "int list"
  | Inverted "int list"

record demo_state =
  d_in :: "int option"
  d_out :: "int option"
  d_seq :: nat
  d_phase :: nat
  d_log :: "event list"

definition negative_input :: exc where
  "negative_input = PyException ''NodeException'' ''negative input''"

definition training_finished :: exc where
  "training_finished = TrainingFinishedException ''The training phase has already finished.''"

definition demo_class :: "(demo_state, int list) node_class" where
  "demo_class = \<lparr>
     cname = ''DemoNode'',
     c_input_dim = d_in,
     c_output_dim = d_out,
     c_is_trainable = (\<lambda>s. d_seq s > 0),
     c_is_training = (\<lambda>s. d_phase s < d_seq s),
     c_get_remaining_train_phase = (\<lambda>s. int (d_seq s) - int (d_phase s)),
     c_train_seq_len = d_seq,
     c_train = (\<lambda>s x arg.
        if \<not> d_phase s < d_seq s then (Some training_finished, s)
        else if list_ex (\<lambda>v. v < 0) x then (Some negative_input, s)
        else (None, s\<lparr>d_log := d_log s @ [Trained x arg]\<rparr>)),
     c_stop_training = (\<lambda>s.
        if \<not> d_phase s < d_seq s then (Some training_finished, s)
        else (None, s\<lparr>d_phase := Suc (d_phase s), d_log := d_log s @ [Stopped]\<rparr>)),
     c_execute = (\<lambda>s x.
        if list_ex (\<lambda>v. v < 0) x then (Inl negative_input, s)
        else (Inr (map (\<lambda>v. 2 * v + 1) x), s\<lparr>d_log := d_log s @ [Executed x]\<rparr>)),
     c_inverse = (\<lambda>s x.
        if list_ex (\<lambda>v. v < 0) x then (Inl negative_input, s)
        else (Inr (map (\<lambda>v. (v - 1) div 2) x), s\<lparr>d_log := d_log s @ [Inverted x]\<rparr>))\<rparr>"

definition demo_node ::
  "int option \<Rightarrow> int option \<Rightarrow> nat \<Rightarrow> nat \<Rightarrow> (demo_state, int list) node" where
  "demo_node i out seq phase =
     \<lparr>klass = demo_class,
      nstate = \<lparr>d_in = i, d_out = out, d_seq = seq, d_phase = phase, d_log = []\<rparr>\<rparr>"

definition demo_flow ::
  "(demo_state, int list) node list \<Rightarrow> (demo_state, int list, int) flow_obj" where
  "demo_flow ns = \<lparr>fclass = Flow, flow = ns, verbose = 0, crash_recovery = CR_int 0,
                   attrs = Map.empty\<rparr>"

definition demo_world ::
  "(demo_state, int list, int) flow_obj \<Rightarrow> (demo_state, int list, int) world" where
  "demo_world f = \<lparr>the_flow = f, files = Map.empty, warnings = [],
                   tmp_name = (\<lambda>k. ''/tmp/tmp'' @ fmt_d (int k)), tmp_count = 0\<rparr>"

definition demo_log :: "(demo_state, int list, int) world \<Rightarrow> nat \<Rightarrow> event list" where
  "demo_log w i = d_log (nstate (nodes w ! i))"

text \<open>Concatenation of arrays; the library raises when there is none.\<close>

definition demo_concatenate :: "int list list \<Rightarrow> exc + int list" where
  "demo_concatenate res =
     (if res = [] then Inl (ValueError ''need at least one array to concatenate'')
      else Inr (concat res))"

text \<open>A node without training whose \<^verbatim>\<open>execute\<close> adds \<open>c\<close> and leaves the node as it is.\<close>

definition shift_node :: "int \<Rightarrow> (demo_state, int list) node" where
  "shift_node c =
     \<lparr>klass = demo_class\<lparr>cname := ''ShiftNode'',
                          c_execute := (\<lambda>s x. (Inr (map (\<lambda>v. v + c) x), s)),
                          c_inverse := (\<lambda>s x. (Inr (map (\<lambda>v. v - c) x), s))\<rparr>,
      nstate = \<lparr>d_in = None, d_out = None, d_seq = 0, d_phase = 0, d_log = []\<rparr>\<rparr>"

text \<open>
  The two errors of the example in which unit 0 fails while unit 1 is trained, with
  crash recovery armed: the error that \<^verbatim>\<open>_execute_seq\<close> raises for unit 0, and the
  error that \<^verbatim>\<open>_train_node\<close> raises for unit 1 when it catches the first.
\<close>

definition filter_error :: exc where
  "filter_error = FlowExceptionCR
     (crash_errstr 0 ''DemoNode'' negative_input @ dumpinfo ''/tmp/tmp0'')
     negative_input (Some ''/tmp/tmp0'')"

definition rewrapped_error :: exc where
  "rewrapped_error = FlowExceptionCR
     (crash_errstr 1 ''DemoNode'' filter_error @ dumpinfo ''/tmp/tmp1'')
     filter_error (Some ''/tmp/tmp1'')"

subsection \<open>Sequential application, as the specification words it\<close>

text \<open>
  Applying the transforms of a list of units one after the other, each to the result
  of the one before.  The units keep the states the calls leave; a failure is reported
  with the index of the unit that raised (the first unit has index \<open>i\<close>).
\<close>

fun apply_units ::
  "nat \<Rightarrow> ('s, 'x) node list \<Rightarrow> 'x \<Rightarrow> ((nat \<times> exc) + 'x) \<times> ('s, 'x) node list" where
  "apply_units i [] x = (Inr x, [])"
| "apply_units i (n # ns) x =
     (case node_execute n x of
        (Inl e, n') \<Rightarrow> (Inl (i, e), n' # ns)
      | (Inr y, n') \<Rightarrow> (case apply_units (Suc i) ns y of (r, ns') \<Rightarrow> (r, n' # ns')))"

text \<open>The same transform for every batch, in the order of the input.\<close>

fun apply_batches ::
  "('s, 'x) node list \<Rightarrow> 'x list \<Rightarrow> ((nat \<times> exc) + 'x list) \<times> ('s, 'x) node list" where
  "apply_batches ns [] = (Inr [], ns)"
| "apply_batches ns (x # xs) =
     (case apply_units 0 ns x of
        (Inl ie, ns') \<Rightarrow> (Inl ie, ns')
      | (Inr y, ns') \<Rightarrow>
          (case apply_batches ns' xs of
             (Inl ie, ns'') \<Rightarrow> (Inl ie, ns'')
           | (Inr ys, ns'') \<Rightarrow> (Inr (y # ys), ns'')))"

text \<open>
  Applying the inverse transforms from the last unit down to the first.  The argument
  is the list of units in reverse, so that its head is the last unit; the index of a
  unit is the number of units before it in the flow.
\<close>

fun apply_inverses ::
  "('s, 'x) node list \<Rightarrow> 'x \<Rightarrow> ((nat \<times> exc) + 'x) \<times> ('s, 'x) node list" where
  "apply_inverses [] x = (Inr x, [])"
| "apply_inverses (n # ns) x =
     (case node_inverse n x of
        (Inl e, n') \<Rightarrow> (Inl (length ns, e), n' # ns)
      | (Inr y, n') \<Rightarrow> (case apply_inverses ns y of (r, ns') \<Rightarrow> (r, n' # ns')))"

definition with_nodes :: "('s, 'x, 'v) world \<Rightarrow> ('s, 'x) node list \<Rightarrow> ('s, 'x, 'v) world" where
  "with_nodes w ns = w\<lparr>the_flow := (the_flow w)\<lparr>flow := ns\<rparr>\<rparr>"

text \<open>The number of units that \<^verbatim>\<open>execute\<close> runs for its argument \<^verbatim>\<open>nodenr\<close>.\<close>

definition upto_count :: "('s, 'x, 'v) world \<Rightarrow> int option \<Rightarrow> nat" where
  "upto_count w nodenr =
     nat ((case nodenr of None \<Rightarrow> int (length (nodes w)) - 1 | Some k \<Rightarrow> k) + 1)"

text \<open>
  The outcome in a world whose units are now \<open>ns\<close>: the result when there is one, and
  otherwise what \<^verbatim>\<open>_propagate_exception\<close> raises for the failure of unit \<open>i\<close>.
\<close>

definition outcome ::
  "('s, 'x, 'v) world \<Rightarrow> ((nat \<times> exc) + 'a) \<times> ('s, 'x) node list
     \<Rightarrow> (exc + 'a) \<times> ('s, 'x, 'v) world" where
  "outcome w res = (case res of
       (Inr y, ns) \<Rightarrow> (Inr y, with_nodes w ns)
     | (Inl (i, e), ns) \<Rightarrow>
         (case propagate_exception (with_nodes w ns) e (int i) of
            (e', w') \<Rightarrow> (Inl e', w')))"

text \<open>The units after the last one that ran are as they were.\<close>

definition keep_rest ::
  "('s, 'x) node list \<Rightarrow> 'r \<times> ('s, 'x) node list \<Rightarrow> 'r \<times> ('s, 'x) node list" where
  "keep_rest post res = (case res of (r, ns) \<Rightarrow> (r, ns @ post))"

text \<open>
  What the specification says of the error raised for the failure \<open>e\<close> of unit \<open>i\<close> in
  the world \<open>w\<close>: it wraps \<open>e\<close> as its parent failure, its message contains the index and
  the name of the type of the unit, and, when crash recovery is armed, the flow has
  been written to the file of the chosen name (the caller's, or else the next
  temporary name), which the error records and its message shows.  Without crash
  recovery nothing is written.
\<close>

definition dump_name :: "('s, 'x, 'v) world \<Rightarrow> string" where
  "dump_name w = (case crash_recovery (the_flow w) of
       CR_str s \<Rightarrow> s
     | CR_int k \<Rightarrow> tmp_name w (tmp_count w))"

definition crash_wrapped ::
  "('s, 'x, 'v) world \<Rightarrow> exc \<Rightarrow> nat \<Rightarrow> exc \<times> ('s, 'x, 'v) world \<Rightarrow> bool" where
  "crash_wrapped w e i res = (case res of (e', w') \<Rightarrow>
     (\<exists>msg. e' = FlowExceptionCR msg e (filename e')
        \<and> parent_exception e' = Some e
        \<and> sublist (fmt_d (int i)) msg
        \<and> sublist (type_name (nodes w ! i)) msg
        \<and> sublist (''node #'' @ fmt_d (int i) @ '' ('' @ type_name (nodes w ! i) @ '')'') msg
        \<and> the_flow w' = the_flow w
        \<and> (if truthy (crash_recovery (the_flow w))
           then filename e' = Some (dump_name w)
                \<and> files w' (dump_name w) = Some (the_flow w)
                \<and> sublist (dump_name w) msg
           else filename e' = None \<and> w' = w)))"

text \<open>
  A strictly single-pass source: a generator, or an iterator object of another type.
\<close>

definition single_pass :: "'x source \<Rightarrow> bool" where
  "single_pass s = (case s of SGenerator its \<Rightarrow> True | SIterator its \<Rightarrow> True | _ \<Rightarrow> False)"

definition is_training_finished :: "exc \<Rightarrow> bool" where
  "is_training_finished e = (case e of TrainingFinishedException m \<Rightarrow> True | _ \<Rightarrow> False)"

subsection \<open>Training one unit, as the specification words it\<close>



subsection \<open>Checkpoints, as the specification words them\<close>

text \<open>Of the flow object, at most the states of the nodes differ between two worlds.\<close>

definition only_nodes_changed :: "('s, 'x, 'v) world \<Rightarrow> ('s, 'x, 'v) world \<Rightarrow> bool" where
  "only_nodes_changed w w' = (the_flow w' = (the_flow w)\<lparr>flow := nodes w'\<rparr>)"



text \<open>The value of the attribute \<open>k\<close> of the flow object.\<close>

definition getattr :: "('s, 'x, 'v) world \<Rightarrow> string \<Rightarrow> 'v option" where
  "getattr w k = attrs (the_flow w) k"

section \<open>The container keeps the adjacency invariant\<close>

lemma fmt_d_digit: "0 \<le> i \<Longrightarrow> i < 10 \<Longrightarrow> fmt_d i = [digit_char (nat i)]"
  by (simp add: fmt_d_def nat_digits.simps)

lemma check_dim_ok:
  "out \<noteq> Some 0 \<Longrightarrow>
   check_dimension_consistency out inp =
     (case (out, inp) of
        (Some a, Some b) \<Rightarrow> if a = b then Inr () else Inl (ValueError (mismatch_msg a b))
      | _ \<Rightarrow> Inr ())"
  by (auto simp: check_dimension_consistency_def py_and_def mismatch_errstr_def
      split: option.splits)

lemma check_nodes_ok:
  "no_zero_dim ns \<Longrightarrow> adjacency_invariant ns \<Longrightarrow> check_nodes_consistency ns = Inr ()"
proof (induction ns rule: check_nodes_consistency.induct)
  case (3 m n ns)
  then show ?case
    by (auto simp: no_zero_dim_def check_dim_ok adjacent_ok_def split: option.splits)
qed simp_all

lemma check_nodes_fail:
  "no_zero_dim ns \<Longrightarrow> \<not> adjacency_invariant ns \<Longrightarrow>
   \<exists>e. dimension_mismatch ns e \<and> check_nodes_consistency ns = Inl e"
proof (induction ns rule: check_nodes_consistency.induct)
  case (3 m n ns)
  have nz: "output_dim m \<noteq> Some 0" "no_zero_dim (n # ns)"
    using 3(2) by (auto simp: no_zero_dim_def)
  show ?case
  proof (cases "adjacent_ok m n")
    case True
    then have ok: "check_dimension_consistency (output_dim m) (input_dim n) = Inr ()"
      using nz(1) by (auto simp: check_dim_ok adjacent_ok_def split: option.splits)
    from True 3(3) have "\<not> adjacency_invariant (n # ns)" by simp
    with 3(1)[OF ok nz(2)] obtain e where e: "dimension_mismatch (n # ns) e"
      "check_nodes_consistency (n # ns) = Inl e" by blast
    from e(1) obtain i a b where "Suc i < length (n # ns)"
      "output_dim ((n # ns) ! i) = Some a" "input_dim ((n # ns) ! Suc i) = Some b"
      "a \<noteq> b" "e = ValueError (mismatch_msg a b)"
      unfolding dimension_mismatch_def by blast
    then have "dimension_mismatch (m # n # ns) e"
      unfolding dimension_mismatch_def
      by (intro exI[of _ "Suc i"] exI[of _ a] exI[of _ b]) simp
    with e(2) ok show ?thesis by simp
  next
    case False
    then obtain a b where ab: "output_dim m = Some a" "input_dim n = Some b" "a \<noteq> b"
      by (auto simp: adjacent_ok_def split: option.splits)
    then have "check_dimension_consistency (output_dim m) (input_dim n)
                 = Inl (ValueError (mismatch_msg a b))"
      using nz(1) by (simp add: check_dim_ok)
    moreover have "dimension_mismatch (m # n # ns) (ValueError (mismatch_msg a b))"
      unfolding dimension_mismatch_def using ab
      by (intro exI[of _ 0] exI[of _ a] exI[of _ b]) simp
    ultimately show ?thesis by simp
  qed
qed simp_all

lemma check_and_accept_validated:
  "no_zero_dim new \<Longrightarrow> validated_commit self new () (check_and_accept self new)"
  using check_nodes_ok[of new] check_nodes_fail[of new]
  by (auto simp: validated_commit_def check_and_accept_def)

lemma init_validated:
  "no_zero_dim new \<Longrightarrow>
   validated_new c new
     (case check_nodes_consistency new of Inl e \<Rightarrow> Inl e | Inr u \<Rightarrow> init c new 0)"
  using check_nodes_ok[of new] check_nodes_fail[of new]
  by (auto simp: validated_new_def init_def)

lemma slice_indices_same:
  "slice_indices n (Slice (Some i) (Some i) None) = Inr (clip (int n) 1 i, clip (int n) 1 i, 1)"
  by (simp add: slice_indices_def Let_def)

lemma list_setitem_slice_insert:
  "list_setitem_slice xs (Slice (Some i) (Some i) None) ns =
     Inr (take (nat (clip (int (length xs)) 1 i)) xs @ ns
          @ drop (nat (clip (int (length xs)) 1 i)) xs)"
  by (simp add: list_setitem_slice_def slice_indices_same)

lemma list_setitem_slice_end:
  "list_setitem_slice xs (Slice (Some (int (length xs))) (Some (int (length xs))) None) ns
     = Inr (xs @ ns)"
  by (simp add: list_setitem_slice_insert clip_def)

lemma map_check_isnode_nodes: "map_check_isnode (map PNode ns) = Inr ns"
  by (induction ns) (simp_all add: check_value_type_isnode_def)

lemma setitem_int_validated:
  "list_setitem_int (flow self) i n = Inr new \<Longrightarrow> no_zero_dim new \<Longrightarrow>
   validated_commit self new () (setitem self (KInt i) (PNode n))"
  by (simp add: setitem_def check_value_type_isnode_def check_and_accept_validated)

lemma setitem_slice_validated:
  "elements value = Inr vs \<Longrightarrow> map_check_isnode vs = Inr ns \<Longrightarrow>
   list_setitem_slice (flow self) sl ns = Inr new \<Longrightarrow> no_zero_dim new \<Longrightarrow>
   validated_commit self new () (setitem self (KSlice sl) value)"
  by (simp add: setitem_def check_and_accept_validated)

lemma delitem_validated:
  "list_delitem (flow self) k = Inr new \<Longrightarrow> no_zero_dim new \<Longrightarrow>
   validated_commit self new () (delitem self k)"
  by (simp add: delitem_def check_and_accept_validated)

lemma insert_validated:
  "p = nat (clip (int (length (flow self))) 1 i) \<Longrightarrow>
   no_zero_dim (take p (flow self) @ [n] @ drop p (flow self)) \<Longrightarrow>
   validated_commit self (take p (flow self) @ [n] @ drop p (flow self)) ()
     (insert_node self i (PNode n))"
  using setitem_slice_validated[of "PList [PNode n]" "[PNode n]" "[n]" self
      "Slice (Some i) (Some i) None" "take p (flow self) @ [n] @ drop p (flow self)"]
  by (simp add: insert_node_def list_setitem_slice_insert check_value_type_isnode_def)

lemma append_validated:
  "no_zero_dim (flow self @ [n]) \<Longrightarrow>
   validated_commit self (flow self @ [n]) () (append_node self (PNode n))"
  using setitem_slice_validated[of "PList [PNode n]" "[PNode n]" "[n]" self
      "Slice (Some (int (length (flow self)))) (Some (int (length (flow self)))) None"
      "flow self @ [n]"]
  by (simp add: append_node_def len_slice_def list_setitem_slice_end
      check_value_type_isnode_def)

lemma extend_validated:
  "no_zero_dim (flow self @ flow other) \<Longrightarrow>
   validated_commit self (flow self @ flow other) () (extend_flow self (PFlow other))"
  using setitem_slice_validated[of "PFlow other" "map PNode (flow other)" "flow other" self
      "Slice (Some (int (length (flow self)))) (Some (int (length (flow self)))) None"
      "flow self @ flow other"]
  by (simp add: extend_flow_def len_slice_def list_setitem_slice_end map_check_isnode_nodes)

lemma pop_validated:
  "list_getitem_int (flow self) i = Inr n \<Longrightarrow> list_delitem_int (flow self) i = Inr new \<Longrightarrow>
   no_zero_dim new \<Longrightarrow> validated_commit self new (PNode n) (pop self i)"
  using delitem_validated[of self "KInt i" new]
  by (auto simp: pop_def getitem_def list_delitem_def validated_commit_def split: if_splits)

lemma add_validated:
  "no_zero_dim (flow self @ flow other) \<Longrightarrow>
   validated_new (fclass self) (flow self @ flow other) (add self (PFlow other))"
  using init_validated[of "flow self @ flow other" "fclass self"]
  by (simp add: add_def Let_def)

text \<open>
  Claim C1.  Every mutating operation of the container builds the prospective new
  sequence on a copy, checks the adjacency invariant over it, and only then commits.
  For index and slice assignment, deletion, insert, append, extend, pop and
  concatenation: when the prospective sequence violates the invariant, the operation
  raises a dimension mismatch that names the two conflicting dimensions and the
  container is exactly as it was before the call; when the invariant holds, the
  container holds the new sequence (concatenation returns it in a new container of the
  same class).  Known dimensions are taken to be different from zero, as the data model
  of the specification has them.
\<close>

theorem C1_mutation_validated_before_commit:
  fixes self :: "('s, 'x, 'v) flow_obj"
  shows "(list_setitem_int (flow self) i n1 = Inr new1 \<and> no_zero_dim new1 \<longrightarrow>
            validated_commit self new1 () (setitem self (KInt i) (PNode n1)))
       \<and> (elements value = Inr vs \<and> map_check_isnode vs = Inr ns \<and>
          list_setitem_slice (flow self) sl ns = Inr new2 \<and> no_zero_dim new2 \<longrightarrow>
            validated_commit self new2 () (setitem self (KSlice sl) value))
       \<and> (list_delitem (flow self) k = Inr new3 \<and> no_zero_dim new3 \<longrightarrow>
            validated_commit self new3 () (delitem self k))
       \<and> (p = nat (clip (int (length (flow self))) 1 j) \<and>
          no_zero_dim (take p (flow self) @ [n4] @ drop p (flow self)) \<longrightarrow>
            validated_commit self (take p (flow self) @ [n4] @ drop p (flow self)) ()
              (insert_node self j (PNode n4)))
       \<and> (no_zero_dim (flow self @ [n5]) \<longrightarrow>
            validated_commit self (flow self @ [n5]) () (append_node self (PNode n5)))
       \<and> (no_zero_dim (flow self @ flow other) \<longrightarrow>
            validated_commit self (flow self @ flow other) () (extend_flow self (PFlow other)))
       \<and> (list_getitem_int (flow self) q = Inr n7 \<and>
          list_delitem_int (flow self) q = Inr new7 \<and> no_zero_dim new7 \<longrightarrow>
            validated_commit self new7 (PNode n7) (pop self q))
       \<and> (no_zero_dim (flow self @ flow other) \<longrightarrow>
            validated_new (fclass self) (flow self @ flow other) (add self (PFlow other)))"
  using setitem_int_validated[of self i n1 new1]
    setitem_slice_validated[of "value" vs ns self sl new2]
    delitem_validated[of self k new3]
    insert_validated[of p self j n4]
    append_validated[of self n5]
    extend_validated[of self other]
    pop_validated[of self q n7 new7]
    add_validated[of self other]
  by blast

lemmas demo_dims = demo_flow_def demo_node_def demo_class_def input_dim_def output_dim_def
  no_zero_dim_def adjacent_ok_def

lemmas fmt_d_eval = fmt_d_def nat_digits.simps digit_char_def

text \<open>
  An instance: in the flow of a node \<open>3 \<rightarrow> 4\<close> and a node \<open>4 \<rightarrow> 5\<close>, assigning a node
  \<open>7 \<rightarrow> 5\<close> to index 1 is refused and leaves the flow as it was; appending a node
  \<open>5 \<rightarrow> 6\<close> is committed.
\<close>

theorem C1_witness:
  "setitem (demo_flow [demo_node (Some 3) (Some 4) 1 0, demo_node (Some 4) (Some 5) 1 0])
     (KInt 1) (PNode (demo_node (Some 7) (Some 5) 1 0))
   = (Inl (ValueError ''dimensions mismatch: 4 != 7''),
      demo_flow [demo_node (Some 3) (Some 4) 1 0, demo_node (Some 4) (Some 5) 1 0])
   \<and> append_node (demo_flow [demo_node (Some 3) (Some 4) 1 0, demo_node (Some 4) (Some 5) 1 0])
     (PNode (demo_node (Some 5) (Some 6) 1 0))
   = (Inr (), demo_flow [demo_node (Some 3) (Some 4) 1 0, demo_node (Some 4) (Some 5) 1 0,
                         demo_node (Some 5) (Some 6) 1 0])"
proof -
  let ?f = "demo_flow [demo_node (Some 3) (Some 4) 1 0, demo_node (Some 4) (Some 5) 1 0]"
  let ?n = "demo_node (Some 7) (Some 5) 1 0"
  let ?m = "demo_node (Some 5) (Some 6) 1 0"
  let ?new = "[demo_node (Some 3) (Some 4) 1 0, ?n]"
  have h1: "list_setitem_int (flow ?f) 1 ?n = Inr ?new"
    by (simp add: list_setitem_int_def norm_index_def demo_flow_def)
  have h2: "no_zero_dim ?new" by (simp add: demo_dims)
  have h3: "no_zero_dim (flow ?f @ [?m])" by (simp add: demo_dims)
  note inst = C1_mutation_validated_before_commit[of ?f 1 ?n ?new _ _ _ _ _ _ _ _ _ _ ?m]
  have "validated_commit ?f ?new () (setitem ?f (KInt 1) (PNode ?n))"
    using inst h1 h2 by blast
  moreover have "\<not> adjacency_invariant ?new" by (simp add: demo_dims)
  moreover have "\<And>e. dimension_mismatch ?new e
      \<Longrightarrow> e = ValueError ''dimensions mismatch: 4 != 7''"
    by (auto simp: dimension_mismatch_def demo_dims mismatch_msg_def fmt_d_eval)
  ultimately have a: "setitem ?f (KInt 1) (PNode ?n)
      = (Inl (ValueError ''dimensions mismatch: 4 != 7''), ?f)"
    by (auto simp: validated_commit_def)
  have "validated_commit ?f (flow ?f @ [?m]) () (append_node ?f (PNode ?m))"
    using inst h3 by blast
  moreover have "adjacency_invariant (flow ?f @ [?m])" by (simp add: demo_dims)
  ultimately have b: "append_node ?f (PNode ?m) = (Inr (), ?f\<lparr>flow := flow ?f @ [?m]\<rparr>)"
    by (simp add: validated_commit_def)
  show ?thesis using a b by (simp add: demo_flow_def)
qed

section \<open>Operands of the wrong type\<close>

text \<open>
  Claim C9.  Concatenation requires its right operand to be a container, and so does
  \<^verbatim>\<open>extend\<close>: for every operand that is not one, the operation fails with a
  \<^verbatim>\<open>TypeError\<close> that names the type of the operand, and the left container is as it
  was.  Every operand that is not a sequence of units is among them.
\<close>

theorem C9_wrong_operand_type_error:
  fixes self :: "('s, 'x, 'v) flow_obj"
  shows "(\<not> is_flow other \<longrightarrow>
            add self other = Inl (TypeError (concat_msg (py_type_name other))))
       \<and> (\<not> is_flow x \<longrightarrow>
            extend_flow self x = (Inl (TypeError (concat_msg (py_type_name x))), self))
       \<and> (\<not> is_unit_sequence x \<longrightarrow>
            extend_flow self x = (Inl (TypeError (concat_msg (py_type_name x))), self))"
  by (cases other; cases x) (simp_all add: is_flow_def is_unit_sequence_def add_def extend_flow_def)

text \<open>
  An instance: adding a list to a flow and extending a flow by a number are both
  refused.
\<close>

theorem C9_witness:
  "add (demo_flow [demo_node (Some 3) (Some 4) 1 0])
       (PList [PNode (demo_node (Some 4) (Some 5) 1 0)])
     = Inl (TypeError (concat_msg ''list''))
   \<and> extend_flow (demo_flow [demo_node (Some 3) (Some 4) 1 0]) (PObj ''int'')
     = (Inl (TypeError (concat_msg ''int'')), demo_flow [demo_node (Some 3) (Some 4) 1 0])"
  using C9_wrong_operand_type_error[of "PList [PNode (demo_node (Some 4) (Some 5) 1 0)]"
      "demo_flow [demo_node (Some 3) (Some 4) 1 0]" "PObj ''int''"]
  by (simp add: is_flow_def)

section \<open>Indexing\<close>

lemma getitem_slice_validated:
  assumes "list_getitem_slice (flow self) sl = Inr sub" and "no_zero_dim sub"
  shows "if adjacency_invariant sub
         then getitem self (KSlice sl)
              = Inr (PFlow \<lparr>fclass = fclass self, flow = sub, verbose = 0,
                            crash_recovery = CR_int 0, attrs = Map.empty\<rparr>)
         else (\<exists>e. dimension_mismatch sub e \<and> getitem self (KSlice sl) = Inl e)"
  using assms check_nodes_ok[of sub] check_nodes_fail[of sub]
  by (auto simp: getitem_def init_def)

lemma getitem_int_plain:
  "norm_index (length (flow self)) i = Some j \<Longrightarrow>
   getitem self (KInt i) = Inr (PNode (flow self ! j))"
  by (simp add: getitem_def list_getitem_int_def)

lemma strided_slice_example:
  "adjacency_invariant (flow (demo_flow [demo_node (Some 3) (Some 4) 1 0,
       demo_node (Some 4) (Some 5) 1 0, demo_node (Some 5) (Some 6) 1 0]))
   \<and> getitem (demo_flow [demo_node (Some 3) (Some 4) 1 0,
       demo_node (Some 4) (Some 5) 1 0, demo_node (Some 5) (Some 6) 1 0])
       (KSlice (Slice None None (Some 2)))
     = Inl (ValueError ''dimensions mismatch: 4 != 5'')"
  by (simp add: demo_dims getitem_def list_getitem_slice_def slice_indices_def
      slice_positions_def upt_rec Let_def check_dimension_consistency_def py_and_def
      mismatch_errstr_def mismatch_msg_def fmt_d_eval)

text \<open>
  Claim C10.  Indexing with a slice selects the subsequence as a Python list does,
  validates it against the adjacency invariant, and returns it in a new container of
  the class of the receiver; a subsequence that violates the invariant raises a
  dimension mismatch, which happens for a strided slice of a valid flow (the third
  part gives one).  Indexing with an integer returns the node at that index, whatever
  the dimensions in the flow are.  Neither changes the receiver.
\<close>

theorem C10_getitem_slice_validated_int_plain:
  fixes self :: "('s, 'x, 'v) flow_obj"
  shows "(list_getitem_slice (flow self) sl = Inr sub \<and> no_zero_dim sub \<longrightarrow>
            (if adjacency_invariant sub
             then getitem self (KSlice sl)
                  = Inr (PFlow \<lparr>fclass = fclass self, flow = sub, verbose = 0,
                                crash_recovery = CR_int 0, attrs = Map.empty\<rparr>)
             else (\<exists>e. dimension_mismatch sub e \<and> getitem self (KSlice sl) = Inl e)))
       \<and> (norm_index (length (flow self)) i = Some j \<longrightarrow>
            getitem self (KInt i) = Inr (PNode (flow self ! j)))
       \<and> (\<exists>(f :: (demo_state, int list, int) flow_obj) s e.
            adjacency_invariant (flow f) \<and> getitem f (KSlice s) = Inl e
            \<and> (\<exists>a b. a \<noteq> b \<and> e = ValueError (mismatch_msg a b)))"
proof (intro conjI impI)
  assume "list_getitem_slice (flow self) sl = Inr sub \<and> no_zero_dim sub"
  then show "if adjacency_invariant sub
      then getitem self (KSlice sl)
           = Inr (PFlow \<lparr>fclass = fclass self, flow = sub, verbose = 0,
                         crash_recovery = CR_int 0, attrs = Map.empty\<rparr>)
      else (\<exists>e. dimension_mismatch sub e \<and> getitem self (KSlice sl) = Inl e)"
    using getitem_slice_validated[of self sl sub] by blast
next
  assume "norm_index (length (flow self)) i = Some j"
  then show "getitem self (KInt i) = Inr (PNode (flow self ! j))"
    by (rule getitem_int_plain)
next
  have "(4::int) \<noteq> 5 \<and> ValueError ''dimensions mismatch: 4 != 5'' = ValueError (mismatch_msg 4 5)"
    by (simp add: mismatch_msg_def fmt_d_eval)
  with strided_slice_example
  show "\<exists>(f :: (demo_state, int list, int) flow_obj) s e.
          adjacency_invariant (flow f) \<and> getitem f (KSlice s) = Inl e
          \<and> (\<exists>a b. a \<noteq> b \<and> e = ValueError (mismatch_msg a b))"
    by blast
qed

text \<open>
  An instance: the first two nodes of a flow of three as a new flow, and the node at
  index \<open>-1\<close> of a flow whose dimensions do not fit.
\<close>

theorem C10_witness:
  "getitem (demo_flow [demo_node (Some 3) (Some 4) 1 0, demo_node (Some 4) (Some 5) 1 0,
                       demo_node (Some 5) (Some 6) 1 0])
     (KSlice (Slice (Some 0) (Some 2) None))
   = Inr (PFlow (demo_flow [demo_node (Some 3) (Some 4) 1 0, demo_node (Some 4) (Some 5) 1 0]))
   \<and> getitem (demo_flow [demo_node (Some 3) (Some 4) 1 0, demo_node (Some 9) (Some 5) 1 0])
     (KInt (- 1))
   = Inr (PNode (demo_node (Some 9) (Some 5) 1 0))"
proof -
  let ?a = "demo_node (Some 3) (Some 4) 1 0" and ?b = "demo_node (Some 4) (Some 5) 1 0"
  let ?c = "demo_node (Some 5) (Some 6) 1 0" and ?d = "demo_node (Some 9) (Some 5) 1 0"
  have h1: "list_getitem_slice (flow (demo_flow [?a, ?b, ?c])) (Slice (Some 0) (Some 2) None)
              = Inr [?a, ?b]"
    by (simp add: demo_flow_def list_getitem_slice_def slice_indices_def slice_positions_def
        clip_def upt_rec Let_def)
  have h2: "no_zero_dim [?a, ?b]" by (simp add: demo_dims)
  have h3: "adjacency_invariant [?a, ?b]" by (simp add: demo_dims)
  have h4: "norm_index (length (flow (demo_flow [?a, ?d]))) (- 1) = Some 1"
    by (simp add: norm_index_def demo_flow_def)
  have "getitem (demo_flow [?a, ?b, ?c]) (KSlice (Slice (Some 0) (Some 2) None))
          = Inr (PFlow (demo_flow [?a, ?b]))"
    using C10_getitem_slice_validated_int_plain[of "demo_flow [?a, ?b, ?c]"
        "Slice (Some 0) (Some 2) None" "[?a, ?b]"] h1 h2 h3
    by (simp add: demo_flow_def)
  moreover have "getitem (demo_flow [?a, ?d]) (KInt (- 1)) = Inr (PNode ?d)"
    using C10_getitem_slice_validated_int_plain[of "demo_flow [?a, ?d]" _ _ "- 1" 1] h4
    by (simp add: demo_flow_def)
  ultimately show ?thesis by simp
qed

section \<open>Execution\<close>

lemma with_nodes_same [simp]: "with_nodes w (nodes w) = w"
  by (simp add: with_nodes_def nodes_def)

lemma nodes_with_nodes [simp]: "nodes (with_nodes w ns) = ns"
  by (simp add: with_nodes_def nodes_def)

lemma with_nodes_twice [simp]: "with_nodes (with_nodes w a) b = with_nodes w b"
  by (simp add: with_nodes_def)

lemma set_node_with: "set_node w i n = with_nodes w ((nodes w)[i := n])"
  by (simp add: with_nodes_def nodes_def set_node_def)

lemma outcome_with_nodes [simp]: "outcome (with_nodes w a) res = outcome w res"
  by (simp add: outcome_def split: prod.splits sum.splits)

lemma upto_count_with_nodes:
  "length ns = length (nodes w) \<Longrightarrow> upto_count (with_nodes w ns) nodenr = upto_count w nodenr"
  by (cases nodenr) (simp_all add: upto_count_def)

lemma apply_units_length: "apply_units i ns x = (r, ns') \<Longrightarrow> length ns' = length ns"
  by (induction ns arbitrary: i x r ns') (fastforce split: prod.splits sum.splits)+

text \<open>
  The loop over the indices \<open>length pre, \<dots>\<close> of a flow \<open>pre @ ms @ post\<close> applies
  the units \<open>ms\<close> in order.
\<close>

lemma execute_loop_units:
  "nodes w = pre @ ms @ post \<Longrightarrow>
   execute_loop w [length pre ..< length pre + length ms] x
     = outcome w (case apply_units (length pre) ms x of (r, ms') \<Rightarrow> (r, pre @ ms' @ post))"
proof (induction ms arbitrary: w pre x)
  case Nil
  then show ?case using with_nodes_same[of w] by (simp add: outcome_def)
next
  case (Cons m ms)
  let ?i = "length pre"
  have upt: "[?i ..< ?i + length (m # ms)]
               = ?i # [length (pre @ [m]) ..< length (pre @ [m]) + length ms]"
    by (subst upt_rec) simp
  have lt: "?i < length (nodes w)" and at: "nodes w ! ?i = m"
    using Cons.prems by simp_all
  obtain r m' where ex: "node_execute m x = (r, m')" by (cases "node_execute m x")
  have nodes': "nodes (set_node w ?i m') = (pre @ [m']) @ ms @ post"
    using Cons.prems by (simp add: set_node_with)
  show ?case
  proof (cases r)
    case (Inl e)
    then show ?thesis
      using ex lt at Cons.prems
      by (simp only: upt execute_loop.simps) (simp add: outcome_def set_node_with)
  next
    case (Inr y)
    have "execute_loop w [?i ..< ?i + length (m # ms)] x
            = execute_loop (set_node w ?i m')
                [length (pre @ [m]) ..< length (pre @ [m]) + length ms] y"
      using ex lt at Inr by (simp only: upt execute_loop.simps) simp
    also have "\<dots> = outcome (set_node w ?i m')
        (case apply_units (length (pre @ [m'])) ms y of
           (r, ms') \<Rightarrow> (r, (pre @ [m']) @ ms' @ post))"
      using Cons.IH[OF nodes', of y] by simp
    also have "\<dots> = outcome w
        (case apply_units ?i (m # ms) x of (r, ms') \<Rightarrow> (r, pre @ ms' @ post))"
      using ex Inr by (auto simp: outcome_def set_node_with split: prod.splits sum.splits)
    finally show ?thesis .
  qed
qed

lemma execute_seq_units:
  assumes "k = upto_count w nodenr" and "k \<le> length (nodes w)"
  shows "execute_seq w x nodenr
           = outcome w (keep_rest (drop k (nodes w)) (apply_units 0 (take k (nodes w)) x))"
proof -
  have "nodes w = [] @ take k (nodes w) @ drop k (nodes w)" by simp
  moreover have "length (take k (nodes w)) = k" using assms(2) by simp
  ultimately have "execute_loop w [0..<k] x
          = outcome w (keep_rest (drop k (nodes w)) (apply_units 0 (take k (nodes w)) x))"
    using execute_loop_units[of w "[]" "take k (nodes w)" "drop k (nodes w)" x]
    by (simp add: keep_rest_def del: length_take)
  then show ?thesis
    using assms(1) by (simp add: execute_seq_def upto_count_def Let_def)
qed

lemma execute_each_batches:
  assumes "k = upto_count w nodenr" and "k \<le> length (nodes w)"
  shows "execute_each w xs nodenr
           = outcome w (keep_rest (drop k (nodes w)) (apply_batches (take k (nodes w)) xs))"
  using assms
proof (induction xs arbitrary: w)
  case Nil
  then show ?case by (simp add: outcome_def keep_rest_def)
next
  case (Cons x xs)
  obtain r ns' where au: "apply_units 0 (take k (nodes w)) x = (r, ns')"
    by (cases "apply_units 0 (take k (nodes w)) x")
  have len: "length ns' = k"
    using apply_units_length[OF au] Cons.prems(2) by simp
  have seq: "execute_seq w x nodenr = outcome w (r, ns' @ drop k (nodes w))"
    using execute_seq_units[OF Cons.prems, of x] au by (simp add: keep_rest_def)
  show ?case
  proof (cases r)
    case (Inl ie)
    then show ?thesis
      using seq au by (cases ie) (simp add: outcome_def keep_rest_def split: prod.splits)
  next
    case (Inr y)
    let ?w1 = "with_nodes w (ns' @ drop k (nodes w))"
    have l1: "length (ns' @ drop k (nodes w)) = length (nodes w)"
      using len Cons.prems(2) by simp
    have k1: "k = upto_count ?w1 nodenr"
      using Cons.prems(1) upto_count_with_nodes[OF l1] by simp
    have k2: "k \<le> length (nodes ?w1)" using l1 Cons.prems(2) by simp
    have ih: "execute_each ?w1 xs nodenr
        = outcome w (keep_rest (drop k (nodes w)) (apply_batches ns' xs))"
      using Cons.IH[OF k1 k2] len by simp
    show ?thesis
      using seq au Inr ih
      by (simp add: outcome_def keep_rest_def split: prod.splits sum.splits)
  qed
qed

lemma apply_units_pure:
  "(\<And>j y. j < length ms \<Longrightarrow> node_execute (ms ! j) y = (Inr (g (i + j) y), ms ! j)) \<Longrightarrow>
   apply_units i ms x = (Inr (fold g [i..<i + length ms] x), ms)"
proof (induction ms arbitrary: i x)
  case Nil
  then show ?case by simp
next
  case (Cons m ms)
  have h0: "node_execute m x = (Inr (g i x), m)" using Cons.prems[of 0 x] by simp
  have "\<And>j y. j < length ms \<Longrightarrow> node_execute (ms ! j) y = (Inr (g (Suc i + j) y), ms ! j)"
    using Cons.prems[of "Suc _"] by simp
  from Cons.IH[OF this]
  have "apply_units (Suc i) ms (g i x)
          = (Inr (fold g [Suc i..<Suc i + length ms] (g i x)), ms)" .
  moreover have "[i..<i + length (m # ms)] = i # [Suc i..<Suc i + length ms]"
    by (subst upt_rec) simp
  ultimately show ?case using h0 by simp
qed

lemma apply_batches_pure:
  "(\<And>x. apply_units 0 ns x = (Inr (f x), ns)) \<Longrightarrow> apply_batches ns xs = (Inr (map f xs), ns)"
  by (induction xs) simp_all

lemma execute_pure:
  assumes k: "k = upto_count w nodenr" "k \<le> length (nodes w)"
    and pure: "\<forall>j<k. \<forall>y. node_execute (nodes w ! j) y = (Inr (g j y), nodes w ! j)"
  shows "execute cat w (Ndarray x) nodenr = (Inr (fold g [0..<k] x), w)"
    and "execute cat w (Iterable xs) nodenr = (cat (map (fold g [0..<k]) xs), w)"
proof -
  have len: "length (take k (nodes w)) = k" using k(2) by simp
  have units: "apply_units 0 (take k (nodes w)) y = (Inr (fold g [0..<k] y), take k (nodes w))"
    for y
    using apply_units_pure[of "take k (nodes w)" g 0 y] pure len by simp
  show "execute cat w (Ndarray x) nodenr = (Inr (fold g [0..<k] x), w)"
    using execute_seq_units[OF k, of x] units[of x] with_nodes_same[of w]
    by (simp add: execute_def outcome_def keep_rest_def)
  have "apply_batches (take k (nodes w)) xs = (Inr (map (fold g [0..<k]) xs), take k (nodes w))"
    using apply_batches_pure[of "take k (nodes w)" "fold g [0..<k]" xs] units by simp
  then show "execute cat w (Iterable xs) nodenr = (cat (map (fold g [0..<k]) xs), w)"
    using execute_each_batches[OF k, of xs] with_nodes_same[of w]
    by (simp add: execute_def outcome_def keep_rest_def)
qed

text \<open>
  Claim C6.  With \<open>k\<close> units to run (all of them by default, the units \<open>0, \<dots>, m\<close>
  for \<^verbatim>\<open>nodenr = m\<close>), \<^verbatim>\<open>execute\<close> on one array applies the transforms of the first
  \<open>k\<close> units one after the other and returns the result; on an iterable of arrays it
  applies the same sequential transform to every batch and returns the concatenation
  of the outputs in the order of the input.  The units keep the states the calls leave,
  the other units are untouched, and the failure of a unit is raised through
  \<^verbatim>\<open>_propagate_exception\<close>.  For units whose \<^verbatim>\<open>execute\<close> is a function \<open>g j\<close> of the data
  alone, the result is \<open>g (k - 1) (\<dots> (g 0 x))\<close> for one array and the concatenation of
  these for the batches.
\<close>

theorem C6_execute_applies_units_in_order:
  fixes w :: "('s, 'x, 'v) world"
  shows "upto_count w None = length (nodes w)
       \<and> (0 \<le> m \<longrightarrow> upto_count w (Some m) = Suc (nat m))
       \<and> (k = upto_count w nodenr \<and> k \<le> length (nodes w) \<longrightarrow>
            execute cat w (Ndarray x) nodenr
              = outcome w (keep_rest (drop k (nodes w)) (apply_units 0 (take k (nodes w)) x))
          \<and> execute cat w (Iterable xs) nodenr
              = (case outcome w (keep_rest (drop k (nodes w))
                                   (apply_batches (take k (nodes w)) xs)) of
                   (Inl e, w') \<Rightarrow> (Inl e, w')
                 | (Inr res, w') \<Rightarrow> (cat res, w'))
          \<and> ((\<forall>j<k. \<forall>y. node_execute (nodes w ! j) y = (Inr (g j y), nodes w ! j)) \<longrightarrow>
                execute cat w (Ndarray x) nodenr = (Inr (fold g [0..<k] x), w)
              \<and> execute cat w (Iterable xs) nodenr = (cat (map (fold g [0..<k]) xs), w)))"
proof (intro conjI impI)
  show "upto_count w None = length (nodes w)" by (simp add: upto_count_def)
  show "upto_count w (Some m) = Suc (nat m)" if "0 \<le> m"
    using that by (simp add: upto_count_def nat_add_distrib)
next
  assume k: "k = upto_count w nodenr \<and> k \<le> length (nodes w)"
  show "execute cat w (Ndarray x) nodenr
          = outcome w (keep_rest (drop k (nodes w)) (apply_units 0 (take k (nodes w)) x))"
    using k execute_seq_units[of k w nodenr x] by (simp add: execute_def)
  show "execute cat w (Iterable xs) nodenr
          = (case outcome w (keep_rest (drop k (nodes w))
                               (apply_batches (take k (nodes w)) xs)) of
               (Inl e, w') \<Rightarrow> (Inl e, w')
             | (Inr res, w') \<Rightarrow> (cat res, w'))"
    using k execute_each_batches[of k w nodenr xs] by (simp add: execute_def)
  assume "\<forall>j<k. \<forall>y. node_execute (nodes w ! j) y = (Inr (g j y), nodes w ! j)"
  then show "execute cat w (Ndarray x) nodenr = (Inr (fold g [0..<k] x), w)"
    and "execute cat w (Iterable xs) nodenr = (cat (map (fold g [0..<k]) xs), w)"
    using k execute_pure[of k w nodenr g] by blast+
qed

lemmas demo_eval = demo_world_def demo_flow_def demo_node_def demo_class_def shift_node_def
  nodes_def node_execute_def with_nodes_def upto_count_def outcome_def keep_rest_def
  demo_concatenate_def

text \<open>
  Instances: two example nodes map the batches \<open>[1]\<close> and \<open>[2, 3]\<close> to
  \<open>[7, 11, 15]\<close>; with \<^verbatim>\<open>nodenr = 0\<close> only the first node runs; two nodes that add 1
  and 10 give \<open>[12, 13, 14]\<close> and are unchanged.
\<close>

theorem C6_witness:
  "fst (execute demo_concatenate
              (demo_world (demo_flow [demo_node None None 1 1, demo_node None None 1 1]))
              (Iterable [[1], [2, 3]]) None) = Inr [7, 11, 15]
   \<and> fst (execute demo_concatenate
              (demo_world (demo_flow [demo_node None None 1 1, demo_node None None 1 1]))
              (Ndarray [1]) (Some 0)) = Inr [3]
   \<and> execute demo_concatenate (demo_world (demo_flow [shift_node 1, shift_node 10]))
              (Iterable [[1], [2, 3]]) None
      = (Inr [12, 13, 14], demo_world (demo_flow [shift_node 1, shift_node 10]))"
proof -
  let ?w = "demo_world (demo_flow [demo_node None None 1 1, demo_node None None 1 1])"
  let ?v = "demo_world (demo_flow [shift_node 1, shift_node 10])"
  let ?g = "\<lambda>j::nat. map (\<lambda>v::int. v + (if j = 0 then 1 else 10))"
  have k2: "2 = upto_count ?w None \<and> 2 \<le> length (nodes ?w)" by (simp add: demo_eval)
  have k1: "1 = upto_count ?w (Some 0) \<and> 1 \<le> length (nodes ?w)" by (simp add: demo_eval)
  have kv: "2 = upto_count ?v None \<and> 2 \<le> length (nodes ?v)" by (simp add: demo_eval)
  have pure: "\<forall>j<2. \<forall>y. node_execute (nodes ?v ! j) y = (Inr (?g j y), nodes ?v ! j)"
    by (simp add: demo_eval less_Suc_eq numeral_2_eq_2)
  have "execute demo_concatenate ?w (Iterable [[1], [2, 3]]) None
      = (case outcome ?w (keep_rest (drop 2 (nodes ?w)) (apply_batches (take 2 (nodes ?w)) [[1], [2, 3]])) of
                   (Inl e, w') \<Rightarrow> (Inl e, w')
                 | (Inr res, w') \<Rightarrow> (demo_concatenate res, w'))"
    using C6_execute_applies_units_in_order[of ?w 0 2 None demo_concatenate "[1]" "[[1], [2, 3]]" ?g] k2
    by blast
  then have a: "fst (execute demo_concatenate ?w (Iterable [[1], [2, 3]]) None) = Inr [7, 11, 15]"
    by (simp add: demo_eval)
  have "execute demo_concatenate ?w (Ndarray [1]) (Some 0)
      = outcome ?w (keep_rest (drop 1 (nodes ?w)) (apply_units 0 (take 1 (nodes ?w)) [1]))"
    using C6_execute_applies_units_in_order[of ?w 0 1 "Some 0" demo_concatenate "[1]" "[[1], [2, 3]]" ?g] k1
    by blast
  then have b: "fst (execute demo_concatenate ?w (Ndarray [1]) (Some 0)) = Inr [3]"
    by (simp add: demo_eval)
  have "execute demo_concatenate ?v (Iterable [[1], [2, 3]]) None
      = (demo_concatenate (map (fold ?g [0..<2]) [[1], [2, 3]]), ?v)"
    using C6_execute_applies_units_in_order[of ?v 0 2 None demo_concatenate "[1]" "[[1], [2, 3]]" ?g]
      kv pure
    by blast
  then have c: "execute demo_concatenate ?v (Iterable [[1], [2, 3]]) None = (Inr [12, 13, 14], ?v)"
    by (simp add: demo_concatenate_def upt_rec)
  show ?thesis using a b c by simp
qed

section \<open>Crash recovery\<close>

lemma sublist_mid: "sublist b (a @ b @ c)"
  by (rule sublist_appendI)

lemma propagate_wrapped:
  assumes "i < length (nodes w)"
  shows "crash_wrapped w e i (propagate_exception w e (int i))"
proof -
  let ?n = "nodes w ! i"
  let ?msg = "crash_errstr (int i) (type_name ?n) e"
  have get: "list_getitem_int (nodes w) (int i) = Inr ?n"
    using assms by (simp add: list_getitem_int_def norm_index_def)
  have s1: "sublist (fmt_d (int i)) (?msg @ t)" for t
    unfolding crash_errstr_def act_str_def
    by (metis append.assoc sublist_appendI)
  have s2: "sublist (type_name ?n) (?msg @ t)" for t
    unfolding crash_errstr_def act_str_def
    by (metis append.assoc sublist_appendI)
  have s4: "sublist (''node #'' @ fmt_d (int i) @ '' ('' @ type_name ?n @ '')'') (?msg @ t)" for t
  proof -
    have "?msg @ t = (nl @ replicate 40 CHR ''-'' @ nl @ ''! Exception in '')
        @ (''node #'' @ fmt_d (int i) @ '' ('' @ type_name ?n @ '')'')
        @ ('':'' @ nl @ ''Node Traceback:'' @ nl @ format_exception e @ replicate 40 CHR ''-'' @ t)"
      by (simp add: crash_errstr_def act_str_def)
    then show ?thesis by (metis sublist_appendI)
  qed
  have s3: "sublist fn (?msg @ dumpinfo fn)" for fn
    unfolding dumpinfo_def by (metis append.assoc sublist_appendI)
  show ?thesis
  proof (cases "truthy (crash_recovery (the_flow w))")
    case False
    then show ?thesis
      using get s1[of "[]"] s2[of "[]"] s4[of "[]"]
      by (simp add: propagate_exception_def new_FlowExceptionCR_def crash_wrapped_def)
  next
    case True
    then show ?thesis
      using get s1 s2 s3 s4
      by (cases "crash_recovery (the_flow w)")
         (simp_all add: propagate_exception_def new_FlowExceptionCR_def crash_wrapped_def
            dump_def dump_name_def Let_def)
  qed
qed

lemma apply_units_fail:
  "apply_units i0 ms x = (Inl (i, e), ns') \<Longrightarrow> i0 \<le> i \<and> i < i0 + length ms"
  by (induction ms arbitrary: i0 x ns') (fastforce split: prod.splits sum.splits)+

lemma apply_inverses_length: "apply_inverses ns x = (r, ns') \<Longrightarrow> length ns' = length ns"
  by (induction ns arbitrary: x r ns') (fastforce split: prod.splits sum.splits)+

lemma apply_inverses_fail:
  "apply_inverses ms x = (Inl (i, e), ns') \<Longrightarrow> i < length ms"
  by (induction ms arbitrary: x ns') (fastforce split: prod.splits sum.splits)+

lemma inverse_loop_units:
  "nodes w = ms @ post \<Longrightarrow>
   inverse_loop w (rev [0..<length ms]) x
     = outcome w (case apply_inverses (rev ms) x of (r, rs') \<Rightarrow> (r, rev rs' @ post))"
proof (induction ms arbitrary: w post x rule: rev_induct)
  case Nil
  then show ?case using with_nodes_same[of w] by (simp add: outcome_def)
next
  case (snoc m ms)
  let ?i = "length ms"
  have lt: "?i < length (nodes w)" and at: "nodes w ! ?i = m"
    using snoc.prems by simp_all
  obtain r m' where ex: "node_inverse m x = (r, m')" by (cases "node_inverse m x")
  have nodes': "nodes (set_node w ?i m') = ms @ (m' # post)"
    using snoc.prems by (simp add: set_node_with)
  show ?case
  proof (cases r)
    case (Inl e)
    then show ?thesis
      using ex lt at snoc.prems by (simp add: outcome_def set_node_with)
  next
    case (Inr y)
    have "inverse_loop w (rev [0..<length (ms @ [m])]) x
            = inverse_loop (set_node w ?i m') (rev [0..<length ms]) y"
      using ex lt at Inr by simp
    also have "\<dots> = outcome (set_node w ?i m')
        (case apply_inverses (rev ms) y of (r, rs') \<Rightarrow> (r, rev rs' @ m' # post))"
      using snoc.IH[OF nodes', of y] by simp
    also have "\<dots> = outcome w
        (case apply_inverses (rev (ms @ [m])) x of (r, rs') \<Rightarrow> (r, rev rs' @ post))"
      using ex Inr by (auto simp: outcome_def set_node_with split: prod.splits sum.splits)
    finally show ?thesis .
  qed
qed

lemma inverse_seq_units:
  "inverse_seq w x = outcome w (case apply_inverses (rev (nodes w)) x of (r, rs') \<Rightarrow> (r, rev rs'))"
  using inverse_loop_units[of w "nodes w" "[]" x] by (simp add: inverse_seq_def)

lemma propagate_flow [simp]: "the_flow (snd (propagate_exception w e i)) = the_flow w"
  by (simp add: propagate_exception_def new_FlowExceptionCR_def dump_def Let_def
      split: sum.splits option.splits prod.splits)

lemma propagate_nodes: "propagate_exception w e i = (e', w') \<Longrightarrow> nodes w' = nodes w"
  using propagate_flow[of w e i] by (simp add: nodes_def)

lemma length_set_node [simp]: "length (nodes (set_node w i n)) = length (nodes w)"
  by (simp add: set_node_with)

lemma execute_loop_length:
  "execute_loop w js x = (r, w') \<Longrightarrow> length (nodes w') = length (nodes w)"
proof (induction w js x arbitrary: r w' rule: execute_loop.induct)
  case (1 w x)
  then show ?case by simp
next
  case (2 w i rest x)
  show ?case
  proof (cases "i < length (nodes w)")
    case False
    then show ?thesis using 2(2) by (auto split: prod.splits dest: propagate_nodes)
  next
    case True
    obtain q n' where ex: "node_execute (nodes w ! i) x = (q, n')"
      by (cases "node_execute (nodes w ! i) x")
    show ?thesis
    proof (cases q)
      case (Inl e)
      then show ?thesis using 2(2) True ex
        by (auto split: prod.splits dest!: propagate_nodes)
    next
      case (Inr y)
      then show ?thesis using 2(1)[OF True ex[symmetric, unfolded Inr]] 2(2) True ex
        by auto
    qed
  qed
qed

lemma execute_seq_length:
  "execute_seq w x nodenr = (r, w') \<Longrightarrow> length (nodes w') = length (nodes w)"
  by (auto simp: execute_seq_def Let_def dest: execute_loop_length)

lemma train_item_length:
  "train_item w i it = (r, w') \<Longrightarrow> length (nodes w') = length (nodes w)"
  by (auto simp: train_item_def split: sum.splits prod.splits if_splits
      dest: execute_seq_length)

lemma train_items_length:
  "train_items w i its = (r, w', rest) \<Longrightarrow> length (nodes w') = length (nodes w)"
proof (induction its arbitrary: w r w' rest)
  case Nil
  then show ?case by simp
next
  case (Cons it its)
  obtain q w1 where ti: "train_item w i it = (q, w1)" by (cases "train_item w i it")
  from train_item_length[OF ti] Cons ti show ?case
    by (cases q) auto
qed

lemma for_loop_length:
  "for_loop w src i = (r, w', src') \<Longrightarrow> length (nodes w') = length (nodes w)"
  by (auto simp: for_loop_def split: source.splits prod.splits dest: train_items_length)

lemma train_while_length:
  assumes "train_while w0 src0 i0 = Some res0"
  shows "length (nodes (fst (snd res0))) = length (nodes w0)"
proof (rule train_while.raw_induct[where
      P = "\<lambda>w src i res. length (nodes (fst (snd res))) = length (nodes w)", OF _ assms])
  fix tw :: "('a, 'b, 'c) world \<Rightarrow> 'b source \<Rightarrow> nat
               \<Rightarrow> (exc option \<times> ('a, 'b, 'c) world \<times> 'b source) option"
  fix w src i res
  assume IH: "\<And>a b c y. tw a b c = Some y \<Longrightarrow> length (nodes (fst (snd y))) = length (nodes a)"
  assume body: "(case for_loop w src i of
        (None, w', it') \<Rightarrow>
          if 1 < get_remaining_train_phase (nodes w' ! i)
          then case node_stop_training (nodes w' ! i) of
                 (None, n') \<Rightarrow> tw (set_node w' i n') it' i
               | (Some e, n') \<Rightarrow> Some (Some e, set_node w' i n', it')
          else Some (None, w', it')
      | (Some e, w', it') \<Rightarrow> Some (Some e, w', it')) = Some res"
  obtain q w1 src1 where fl: "for_loop w src i = (q, w1, src1)"
    by (cases "for_loop w src i") auto
  note len = for_loop_length[OF fl]
  show "length (nodes (fst (snd res))) = length (nodes w)"
  proof (cases q)
    case (Some e)
    then show ?thesis using body fl len by auto
  next
    case None
    show ?thesis
    proof (cases "1 < get_remaining_train_phase (nodes w1 ! i)")
      case False
      then show ?thesis using body fl len None by auto
    next
      case True
      obtain s n' where st: "node_stop_training (nodes w1 ! i) = (s, n')"
        by (cases "node_stop_training (nodes w1 ! i)")
      show ?thesis
      proof (cases s)
        case (Some e)
        then show ?thesis using body fl len None True st by auto
      next
        case N2: None
        then have "tw (set_node w1 i n') src1 i = Some res"
          using body fl None True st by simp
        from IH[OF this] len show ?thesis by simp
      qed
    qed
  qed
qed

lemma train_node_failure:
  assumes "nodenr < length (nodes w)" "\<not> is_None src" "is_trainable (nodes w ! nodenr)"
    and "train_while w src nodenr = Some (Some e, w1, src1)"
    and "\<forall>m. e \<noteq> TrainingFinishedException m"
  shows "nodenr < length (nodes w1)"
    and "train_node w src nodenr
           = Some (case propagate_exception w1 e (int nodenr) of (e', w') \<Rightarrow> (Inl e', w', src1))"
proof -
  show "nodenr < length (nodes w1)"
    using train_while_length[OF assms(4)] assms(1) by simp
  show "train_node w src nodenr
          = Some (case propagate_exception w1 e (int nodenr) of (e', w') \<Rightarrow> (Inl e', w', src1))"
    using assms by (cases e) (simp_all add: train_node_def train_except_def Let_def split: prod.splits)
qed

lemma execute_seq_failure:
  assumes "k = upto_count w nodenr" "k \<le> length (nodes w)"
    and "apply_units 0 (take k (nodes w)) x = (Inl (i, e), ns')"
  shows "\<exists>e' w'. execute_seq w x nodenr = (Inl e', w')
           \<and> crash_wrapped (with_nodes w (ns' @ drop k (nodes w))) e i (e', w')"
proof -
  let ?w1 = "with_nodes w (ns' @ drop k (nodes w))"
  have "i < k" using apply_units_fail[OF assms(3)] assms(2) by simp
  moreover have "length ns' = k" using apply_units_length[OF assms(3)] assms(2) by simp
  ultimately have "i < length (nodes ?w1)" by simp
  from propagate_wrapped[OF this, of e]
  show ?thesis
    using execute_seq_units[OF assms(1,2), of x] assms(3)
    by (cases "propagate_exception ?w1 e (int i)") (simp add: outcome_def keep_rest_def)
qed

lemma inverse_seq_failure:
  assumes "apply_inverses (rev (nodes w)) x = (Inl (i, e), rs')"
  shows "\<exists>e' w'. inverse_seq w x = (Inl e', w')
           \<and> crash_wrapped (with_nodes w (rev rs')) e i (e', w')"
proof -
  let ?w1 = "with_nodes w (rev rs')"
  have "i < length (nodes ?w1)"
    using apply_inverses_fail[OF assms] apply_inverses_length[OF assms] by simp
  from propagate_wrapped[OF this, of e]
  show ?thesis
    using inverse_seq_units[of w x] assms
    by (cases "propagate_exception ?w1 e (int i)") (simp add: outcome_def)
qed

lemmas train_eval = demo_eval set_crash_recovery_def for_loop_def train_item_def split_item_def
  node_train_def set_node_def is_None_def is_trainable_def

lemmas train_eval2 = train_eval train_def train_check_iterators_def is_generator_def has_iter_def
  train_node_def train_except_def is_training_def get_remaining_train_phase_def
  node_stop_training_def close_last_node_def list_getitem_int_def norm_index_def
  iterators_after_def train_seq_len_def single_pass_def

lemma rewrapped_headed: "sublist ''node #1 (DemoNode)'' (exc_str rewrapped_error)"
proof -
  have "exc_str rewrapped_error
      = (nl @ replicate 40 CHR ''-'' @ nl @ ''! Exception in '')
        @ ''node #1 (DemoNode)''
        @ ('':'' @ nl @ ''Node Traceback:'' @ nl @ format_exception filter_error
           @ replicate 40 CHR ''-'' @ dumpinfo ''/tmp/tmp1'')"
    by (simp add: rewrapped_error_def crash_errstr_def act_str_def fmt_d_eval)
  then show ?thesis by (metis sublist_appendI)
qed

text \<open>
  Claim C5 says that the failure of a unit is raised as a \<^verbatim>\<open>FlowExceptionCR\<close> whose message
  names the index and the type of that unit and whose parent failure is the original
  failure, as the docstring of \<^verbatim>\<open>set_crash_recovery\<close> does.  The code does otherwise when
  a unit fails while a later unit is trained: \<^verbatim>\<open>_train_node\<close> calls \<^verbatim>\<open>_execute_seq\<close> inside
  its \<^verbatim>\<open>try\<close> block, so the error that \<^verbatim>\<open>_execute_seq\<close> has raised for the failing unit is
  caught by \<^verbatim>\<open>except Exception\<close> and wrapped a second time under the index of the unit in
  training.  In the flow below unit 0 is not trainable and fails on a negative input,
  unit 1 is trained with the sample \<open>[-1]\<close>, and crash recovery is armed with temporary
  files: \<^verbatim>\<open>train\<close> raises an error headed by node 1 whose parent failure is the error
  raised by \<^verbatim>\<open>_execute_seq\<close>, not the failure of unit 0, which is the parent of that parent;
  and the flow has been written twice.
\<close>

theorem C5_filter_failure_wrapped_twice:
  "\<not> is_trainable (demo_node None None 0 0)
   \<and> fst (node_execute (demo_node None None 0 0) [- 1]) = Inl negative_input
   \<and> fst (execute_seq (demo_world (set_crash_recovery
              (demo_flow [demo_node None None 0 0, demo_node None None 1 0]) (CR_int 1)))
            [- 1] (Some 0))
      = Inl filter_error
   \<and> map_option fst
        (train (demo_world (set_crash_recovery
                  (demo_flow [demo_node None None 0 0, demo_node None None 1 0]) (CR_int 1)))
               (ItList [SNone, SList [Arr [- 1]]]))
      = Some (Inl rewrapped_error)
   \<and> parent_exception rewrapped_error = Some filter_error
   \<and> parent_exception rewrapped_error \<noteq> Some negative_input
   \<and> parent_exception filter_error = Some negative_input
   \<and> sublist ''node #1 (DemoNode)'' (exc_str rewrapped_error)
   \<and> map_option (\<lambda>r. tmp_count (fst (snd r)))
        (train (demo_world (set_crash_recovery
                  (demo_flow [demo_node None None 0 0, demo_node None None 1 0]) (CR_int 1)))
               (ItList [SNone, SList [Arr [- 1]]]))
      = Some 2"
proof (intro conjI)
  show "sublist ''node #1 (DemoNode)'' (exc_str rewrapped_error)"
    by (rule rewrapped_headed)
qed (simp_all add: train_eval2 train_while.simps execute_seq_def propagate_exception_def
      new_FlowExceptionCR_def dump_def type_name_def upt_rec fmt_d_eval
      filter_error_def rewrapped_error_def negative_input_def Let_def)

text \<open>
  The rest of the claim holds.  A failure \<open>e\<close> handed to \<^verbatim>\<open>_propagate_exception\<close> with the
  index \<open>i\<close> is raised as a \<^verbatim>\<open>FlowExceptionCR\<close> whose message contains \<open>i\<close> and the name of
  the type of the unit and whose parent failure is \<open>e\<close>; when crash recovery is armed,
  the flow has been written to the file named by the caller, or else to a temporary
  file, before the error is raised, and the error records the name of that file.  So
  it is for the first unit that fails in \<^verbatim>\<open>_execute_seq\<close> and in \<^verbatim>\<open>_inverse_seq\<close>.  In
  \<^verbatim>\<open>_train_node\<close> the failure \<open>e\<close> is whatever ends the training loop of unit \<open>i\<close>, other
  than \<^verbatim>\<open>TrainingFinishedException\<close>: the failure of a training call of unit \<open>i\<close>, or
  the error that \<^verbatim>\<open>_execute_seq\<close> has already raised for an earlier unit.
\<close>

lemma failure_wrapped_and_dumped:
  fixes w :: "('s, 'x, 'v) world"
  shows "(i < length (nodes w) \<longrightarrow> crash_wrapped w e i (propagate_exception w e (int i)))
       \<and> (k = upto_count w nodenr \<and> k \<le> length (nodes w) \<and>
          apply_units 0 (take k (nodes w)) x = (Inl (i, e), ns') \<longrightarrow>
            (\<exists>e' w'. execute_seq w x nodenr = (Inl e', w')
               \<and> crash_wrapped (with_nodes w (ns' @ drop k (nodes w))) e i (e', w')))
       \<and> (apply_inverses (rev (nodes w)) x = (Inl (i, e), rs') \<longrightarrow>
            (\<exists>e' w'. inverse_seq w x = (Inl e', w')
               \<and> crash_wrapped (with_nodes w (rev rs')) e i (e', w')))
       \<and> (i < length (nodes w) \<and> \<not> is_None src \<and> is_trainable (nodes w ! i) \<and>
          train_while w src i = Some (Some e, w1, src1) \<and>
          (\<forall>m. e \<noteq> TrainingFinishedException m) \<longrightarrow>
            (\<exists>e' w'. train_node w src i = Some (Inl e', w', src1)
               \<and> crash_wrapped w1 e i (e', w')))"
proof (intro conjI impI)
  show "crash_wrapped w e i (propagate_exception w e (int i))" if "i < length (nodes w)"
    using that by (rule propagate_wrapped)
  show "\<exists>e' w'. execute_seq w x nodenr = (Inl e', w')
          \<and> crash_wrapped (with_nodes w (ns' @ drop k (nodes w))) e i (e', w')"
    if "k = upto_count w nodenr \<and> k \<le> length (nodes w) \<and>
        apply_units 0 (take k (nodes w)) x = (Inl (i, e), ns')"
    using that execute_seq_failure[of k w nodenr x i e ns'] by blast
  show "\<exists>e' w'. inverse_seq w x = (Inl e', w')
          \<and> crash_wrapped (with_nodes w (rev rs')) e i (e', w')"
    if "apply_inverses (rev (nodes w)) x = (Inl (i, e), rs')"
    using that by (rule inverse_seq_failure)
  show "\<exists>e' w'. train_node w src i = Some (Inl e', w', src1) \<and> crash_wrapped w1 e i (e', w')"
    if h: "i < length (nodes w) \<and> \<not> is_None src \<and> is_trainable (nodes w ! i) \<and>
        train_while w src i = Some (Some e, w1, src1) \<and>
        (\<forall>m. e \<noteq> TrainingFinishedException m)"
  proof -
    have "i < length (nodes w1)"
      and "train_node w src i
             = Some (case propagate_exception w1 e (int i) of (e', w') \<Rightarrow> (Inl e', w', src1))"
      using h train_node_failure[of i w src e w1 src1] by blast+
    then show ?thesis
      using propagate_wrapped[of i w1 e]
      by (cases "propagate_exception w1 e (int i)") simp
  qed
qed

lemma demo_train_negative: "train_while (demo_world (set_crash_recovery (demo_flow [demo_node None None 1 0]) (CR_str ''crash.dump'')))
     (SList [Arr [- 1]]) 0
   = Some (Some negative_input,
           demo_world (set_crash_recovery (demo_flow [demo_node None None 1 0]) (CR_str ''crash.dump'')),
           SList [Arr [- 1]])"
  by (subst train_while.simps) (simp add: train_eval)

text \<open>
  An instance: crash recovery is armed with the file name \<open>crash.dump\<close> and the
  training call of the only node fails.  The error names node 0 and its type, has the
  failure of the node as its parent, and the dump holds the flow.
\<close>

lemma training_failure_example:
  "\<exists>e' w' msg.
     train_node (demo_world (set_crash_recovery (demo_flow [demo_node None None 1 0])
                   (CR_str ''crash.dump''))) (SList [Arr [- 1]]) 0
       = Some (Inl e', w', SList [Arr [- 1]])
     \<and> e' = FlowExceptionCR msg negative_input (Some ''crash.dump'')
     \<and> sublist ''node #0 (DemoNode)'' msg
     \<and> sublist ''crash.dump'' msg
     \<and> files w' ''crash.dump''
         = Some (set_crash_recovery (demo_flow [demo_node None None 1 0]) (CR_str ''crash.dump''))"
proof -
  let ?f = "set_crash_recovery (demo_flow [demo_node None None 1 0]) (CR_str ''crash.dump'')"
  let ?w = "demo_world ?f"
  have h: "0 < length (nodes ?w) \<and> \<not> is_None (SList [Arr [- 1 :: int]])
      \<and> is_trainable (nodes ?w ! 0)
      \<and> train_while ?w (SList [Arr [- 1]]) 0 = Some (Some negative_input, ?w, SList [Arr [- 1]])
      \<and> (\<forall>m. negative_input \<noteq> TrainingFinishedException m)"
    using demo_train_negative by (simp add: train_eval negative_input_def)
  obtain e' w' where r: "train_node ?w (SList [Arr [- 1]]) 0 = Some (Inl e', w', SList [Arr [- 1]])"
    and cw: "crash_wrapped ?w negative_input 0 (e', w')"
    using failure_wrapped_and_dumped[of 0 ?w negative_input _ _ _ _ _
        "SList [Arr [- 1]]" ?w "SList [Arr [- 1]]"] h
    by blast
  have arm: "truthy (crash_recovery (the_flow ?w))" and nm: "dump_name ?w = ''crash.dump''"
    and tn: "type_name (nodes ?w ! 0) = ''DemoNode''" and fl: "the_flow ?w = ?f"
    by (simp_all add: train_eval dump_name_def type_name_def)
  from cw obtain msg where "e' = FlowExceptionCR msg negative_input (filename e')"
    "sublist (''node #'' @ fmt_d (int 0) @ '' ('' @ type_name (nodes ?w ! 0) @ '')'') msg"
    "filename e' = Some (dump_name ?w)" "files w' (dump_name ?w) = Some (the_flow ?w)"
    "sublist (dump_name ?w) msg"
    unfolding crash_wrapped_def using arm by auto
  then have "e' = FlowExceptionCR msg negative_input (Some ''crash.dump'')"
    "sublist ''node #0 (DemoNode)'' msg" "sublist ''crash.dump'' msg"
    "files w' ''crash.dump'' = Some ?f"
    unfolding nm tn fl by (simp_all add: fmt_d_eval)
  with r show ?thesis by blast
qed

section \<open>Validation of the data iterators\<close>

lemma check_iterable_exc:
  "check_iterable j its = Inl e \<Longrightarrow> \<exists>m. e = FlowException m"
  by (induction its arbitrary: j) (auto split: if_splits)

lemma check_generators_first:
  "i < length ns \<Longrightarrow> i < length its \<Longrightarrow> train_seq_len (ns ! i) > 1 \<Longrightarrow> is_generator (its ! i) \<Longrightarrow>
   \<forall>j<i. \<not> (train_seq_len (ns ! j) > 1 \<and> is_generator (its ! j)) \<Longrightarrow>
   check_generators k ns its = Inl (FlowException (generator_errstr (k + i)))"
proof (induction k ns its arbitrary: i rule: check_generators.induct)
  case (1 k node ns iter its)
  show ?case
  proof (cases i)
    case 0
    then show ?thesis using 1(3-) by simp
  next
    case (Suc i')
    have first: "\<not> (train_seq_len node > 1 \<and> is_generator iter)" using 1(6) Suc by force
    have below: "\<forall>j<i'. \<not> (train_seq_len (ns ! j) > 1 \<and> is_generator (its ! j))"
    proof (intro allI impI)
      fix j assume "j < i'"
      then have "Suc j < i" using Suc by simp
      with 1(6) have "\<not> (train_seq_len ((node # ns) ! Suc j) > 1 \<and> is_generator ((iter # its) ! Suc j))"
        by blast
      then show "\<not> (train_seq_len (ns ! j) > 1 \<and> is_generator (its ! j))" by simp
    qed
    have "check_generators (Suc k) ns its = Inl (FlowException (generator_errstr (Suc k + i')))"
      using 1(1)[OF first _ _ _ _ below, of] 1(2-5) Suc by simp
    then show ?thesis using Suc first by auto
  qed
qed simp_all

lemma check_generators_exc:
  "i < length ns \<Longrightarrow> i < length its \<Longrightarrow> train_seq_len (ns ! i) > 1 \<Longrightarrow> is_generator (its ! i) \<Longrightarrow>
   \<exists>m. check_generators k ns its = Inl (FlowException m)"
proof (induction k ns its arbitrary: i rule: check_generators.induct)
  case (1 k node ns iter its)
  show ?case
  proof (cases "train_seq_len node > 1 \<and> is_generator iter")
    case True
    then show ?thesis by simp
  next
    case False
    then obtain i' where "i = Suc i'" using 1(4,5) by (cases i) auto
    then show ?thesis using 1(1)[of i'] 1(2-) False by auto
  qed
qed simp_all

lemma train_generator_rejected:
  assumes "i < length (nodes w)" "i < length its" "train_seq_len (nodes w ! i) > 1"
    "is_generator (its ! i)"
  shows "\<exists>msg. train w (ItList its) = Some (Inl (FlowException msg), w, ItList its)"
proof (cases "check_iterable 0 its")
  case (Inl e)
  then show ?thesis using check_iterable_exc[OF Inl]
    by (auto simp: train_def train_check_iterators_def)
next
  case (Inr u)
  show ?thesis
  proof (cases "length its = length (nodes w)")
    case False
    then show ?thesis using Inr by (simp add: train_def train_check_iterators_def nodes_def)
  next
    case True
    from check_generators_exc[OF assms, of 0] obtain m where
      "check_generators 0 (nodes w) its = Inl (FlowException m)" by blast
    then show ?thesis using Inr True
      by (simp add: train_def train_check_iterators_def nodes_def)
  qed
qed

lemma train_generator_message:
  assumes "i < length (nodes w)" "i < length its" "train_seq_len (nodes w ! i) > 1"
    "is_generator (its ! i)"
    and "check_iterable 0 its = Inr ()" "length its = length (nodes w)"
    "\<forall>j<i. \<not> (train_seq_len (nodes w ! j) > 1 \<and> is_generator (its ! j))"
  shows "train w (ItList its) = Some (Inl (FlowException (generator_errstr i)), w, ItList its)"
  using check_generators_first[OF assms(1-4) assms(7), of 0] assms(5,6)
  by (simp add: train_def train_check_iterators_def nodes_def)

text \<open>
  Claim C3 says that validation rejects every single-pass source of a unit with more
  than one training phase.  The check is \<^verbatim>\<open>type(iter) is types.GeneratorType\<close>: an
  iterator object that is not a generator passes.  Here a unit with two phases is
  given \<^verbatim>\<open>iter([x])\<close>; validation accepts it, and \<^verbatim>\<open>train\<close> returns normally with the
  iterator consumed.
\<close>

theorem C3_counterexample:
  "train_seq_len (demo_node None None 2 0) > 1
   \<and> single_pass (SIterator [Arr [1::int]])
   \<and> train_check_iterators (demo_flow [demo_node None None 2 0]) (ItList [SIterator [Arr [1]]])
       = Inr [SIterator [Arr [1]]]
   \<and> map_option (\<lambda>r. (fst r, snd (snd r)))
        (train (demo_world (demo_flow [demo_node None None 2 0])) (ItList [SIterator [Arr [1]]]))
       = Some (Inr (), ItList [SIterator []])"
  by (simp add: train_eval2 train_while.simps)

text \<open>
  Claim C3, amended.  If some unit has more than one training phase and its data
  source is a generator, \<^verbatim>\<open>train\<close> raises a \<^verbatim>\<open>FlowException\<close> and leaves the flow, the
  world and the data iterators as they were: no sample is consumed and no unit is
  trained.  When the other checks of the validation pass, the message is the one for
  a generator, with the index of the first such unit.
\<close>

theorem C3_generator_rejected_before_training:
  fixes w :: "('s, 'x, 'v) world"
  shows "i < length (nodes w) \<and> i < length its \<and> train_seq_len (nodes w ! i) > 1 \<and>
         is_generator (its ! i) \<longrightarrow>
           (\<exists>msg. train w (ItList its) = Some (Inl (FlowException msg), w, ItList its))
         \<and> (check_iterable 0 its = Inr () \<and> length its = length (nodes w) \<and>
            (\<forall>j<i. \<not> (train_seq_len (nodes w ! j) > 1 \<and> is_generator (its ! j))) \<longrightarrow>
              train w (ItList its)
                = Some (Inl (FlowException (generator_errstr i)), w, ItList its))"
  using train_generator_rejected[of i w its] train_generator_message[of i w its]
  by blast

text \<open>An instance: a unit with two phases and a generator.\<close>

theorem C3_witness:
  "train (demo_world (demo_flow [demo_node None None 2 0])) (ItList [SGenerator [Arr [1]]])
     = Some (Inl (FlowException (generator_errstr 0)),
             demo_world (demo_flow [demo_node None None 2 0]), ItList [SGenerator [Arr [1]]])"
proof -
  let ?w = "demo_world (demo_flow [demo_node None None 2 0])"
  let ?its = "[SGenerator [Arr [1::int]]]"
  have "0 < length (nodes ?w) \<and> 0 < length ?its \<and> train_seq_len (nodes ?w ! 0) > 1
      \<and> is_generator (?its ! 0)"
    by (simp add: train_eval2)
  moreover have "check_iterable 0 ?its = Inr () \<and> length ?its = length (nodes ?w)
      \<and> (\<forall>j<0. \<not> (train_seq_len (nodes ?w ! j) > 1 \<and> is_generator (?its ! j)))"
    by (simp add: train_eval2)
  ultimately show ?thesis
    using C3_generator_rejected_before_training[of 0 ?w ?its] by blast
qed

section \<open>A unit without a data source\<close>

text \<open>
  Claim C4 says that a trainable unit that is not in training is skipped silently when
  its data source is \<^verbatim>\<open>None\<close>.  None of the three guards of \<^verbatim>\<open>_train_node\<close> covers
  this case, so the loop \<^verbatim>\<open>for x in data_iterator\<close> runs on \<^verbatim>\<open>None\<close>; the
  \<^verbatim>\<open>TypeError\<close> is caught and raised as a \<^verbatim>\<open>FlowExceptionCR\<close>.  The example is a unit
  whose single training phase is closed.
\<close>

theorem C4_none_source_for_trained_unit_raises:
  "is_trainable (demo_node None None 1 1) \<and> \<not> is_training (demo_node None None 1 1)
   \<and> train_node (demo_world (demo_flow [demo_node None None 1 1])) SNone 0
      = Some (Inl (FlowExceptionCR
                     (crash_errstr 0 ''DemoNode'' (TypeError not_iterable_msg))
                     (TypeError not_iterable_msg) None),
              demo_world (demo_flow [demo_node None None 1 1]), SNone)
   \<and> map_option fst (train (demo_world (demo_flow [demo_node None None 1 1])) (ItList [SNone]))
      = Some (Inl (FlowExceptionCR
                     (crash_errstr 0 ''DemoNode'' (TypeError not_iterable_msg))
                     (TypeError not_iterable_msg) None))"
  by (simp add: train_eval2 train_while.simps propagate_exception_def new_FlowExceptionCR_def
      type_name_def)

text \<open>The two other cases of the claim hold.\<close>

lemma none_source_training_unit_raises:
  "i < length (nodes w) \<Longrightarrow> is_training (nodes w ! i) \<Longrightarrow>
   train_node w SNone i = Some (Inl (FlowException (is_training_errstr i)), w, SNone)"
  by (simp add: train_node_def is_None_def Let_def)

lemma none_source_untrainable_unit_skipped:
  "i < length (nodes w) \<Longrightarrow> \<not> is_training (nodes w ! i) \<Longrightarrow> \<not> is_trainable (nodes w ! i) \<Longrightarrow>
   train_node w SNone i = Some (Inr (), w, SNone)"
  by (simp add: train_node_def is_None_def Let_def)

section \<open>Closing the last unit\<close>

lemma get_last: "xs \<noteq> [] \<Longrightarrow> list_getitem_int xs (- 1) = Inr (last xs)"
proof -
  assume a: "xs \<noteq> []"
  then have "0 < length xs" by simp
  then have "nat (- 1 + int (length xs)) = length xs - 1" by linarith
  then show ?thesis using a
    by (simp add: list_getitem_int_def norm_index_def last_conv_nth)
qed

lemma int_length_pred: "xs \<noteq> [] \<Longrightarrow> int (length xs) - 1 = int (length xs - 1)"
  by (cases xs) simp_all

lemma close_last_node_unfold:
  assumes "nodes w1 \<noteq> []"
  shows "close_last_node w1 =
    (case node_stop_training (last (nodes w1)) of
       (None, n') \<Rightarrow> (Inr (), set_node w1 (length (nodes w1) - 1) n')
     | (Some e, n') \<Rightarrow>
         if is_training_finished e then (Inr (), set_node w1 (length (nodes w1) - 1) n')
         else (case propagate_exception (set_node w1 (length (nodes w1) - 1) n') e
                      (int (length (nodes w1) - 1)) of
                 (e', w') \<Rightarrow> (Inl e', w')))"
  unfolding close_last_node_def Let_def get_last[OF assms] int_length_pred[OF assms]
  by (simp add: is_training_finished_def split: prod.splits option.splits exc.splits)

lemma close_last_node_cases:
  assumes "nodes w1 \<noteq> []"
  shows "case node_stop_training (last (nodes w1)) of
      (None, n') \<Rightarrow> close_last_node w1 = (Inr (), set_node w1 (length (nodes w1) - 1) n')
    | (Some e, n') \<Rightarrow>
        if is_training_finished e
        then close_last_node w1 = (Inr (), set_node w1 (length (nodes w1) - 1) n')
        else (\<exists>e' w'. close_last_node w1 = (Inl e', w')
                \<and> crash_wrapped (set_node w1 (length (nodes w1) - 1) n') e
                     (length (nodes w1) - 1) (e', w'))"
proof -
  let ?li = "length (nodes w1) - 1"
  obtain s n' where st: "node_stop_training (last (nodes w1)) = (s, n')"
    by (cases "node_stop_training (last (nodes w1))")
  have "?li < length (nodes (set_node w1 ?li n'))" using assms by simp
  note pw = propagate_wrapped[OF this]
  show ?thesis
  proof (cases s)
    case None
    then show ?thesis using st by (simp add: close_last_node_unfold[OF assms])
  next
    case (Some e)
    then show ?thesis using st pw[of e]
      by (cases "propagate_exception (set_node w1 ?li n') e (int ?li)")
         (simp add: close_last_node_unfold[OF assms])
  qed
qed

text \<open>
  Claim C8.  When every unit has been processed, \<^verbatim>\<open>train\<close> calls \<^verbatim>\<open>stop_training\<close> on
  the last unit.  If the call returns, or raises \<^verbatim>\<open>TrainingFinishedException\<close>,
  \<^verbatim>\<open>train\<close> returns normally and no warning is added; any other failure is raised
  through \<^verbatim>\<open>_propagate_exception\<close> with the index of the last unit.
\<close>

theorem C8_train_closes_last_unit:
  fixes w :: "('s, 'x, 'v) world"
  shows "train_check_iterators (the_flow w) arg = Inr its \<and>
         train_nodes w its [0..<length (nodes w)] = Some (Inr (), w1, its1) \<and>
         nodes w1 \<noteq> [] \<longrightarrow>
           (case node_stop_training (last (nodes w1)) of
              (None, n') \<Rightarrow>
                train w arg = Some (Inr (), set_node w1 (length (nodes w1) - 1) n',
                                    iterators_after arg its1)
                \<and> warnings (set_node w1 (length (nodes w1) - 1) n') = warnings w1
            | (Some e, n') \<Rightarrow>
                if is_training_finished e
                then train w arg = Some (Inr (), set_node w1 (length (nodes w1) - 1) n',
                                         iterators_after arg its1)
                     \<and> warnings (set_node w1 (length (nodes w1) - 1) n') = warnings w1
                else (\<exists>e' w'. train w arg = Some (Inl e', w', iterators_after arg its1)
                        \<and> crash_wrapped (set_node w1 (length (nodes w1) - 1) n') e
                             (length (nodes w1) - 1) (e', w')))"
proof (intro impI)
  assume h: "train_check_iterators (the_flow w) arg = Inr its \<and>
         train_nodes w its [0..<length (nodes w)] = Some (Inr (), w1, its1) \<and>
         nodes w1 \<noteq> []"
  then have tr: "train w arg
      = (case close_last_node w1 of (r, w'') \<Rightarrow> Some (r, w'', iterators_after arg its1))"
    by (simp add: train_def)
  obtain s n' where st: "node_stop_training (last (nodes w1)) = (s, n')"
    by (cases "node_stop_training (last (nodes w1))")
  have wn: "warnings (set_node w1 (length (nodes w1) - 1) n') = warnings w1"
    by (simp add: set_node_def)
  from h close_last_node_cases[of w1] st tr wn
  show "case node_stop_training (last (nodes w1)) of
              (None, n') \<Rightarrow>
                train w arg = Some (Inr (), set_node w1 (length (nodes w1) - 1) n',
                                    iterators_after arg its1)
                \<and> warnings (set_node w1 (length (nodes w1) - 1) n') = warnings w1
            | (Some e, n') \<Rightarrow>
                if is_training_finished e
                then train w arg = Some (Inr (), set_node w1 (length (nodes w1) - 1) n',
                                         iterators_after arg its1)
                     \<and> warnings (set_node w1 (length (nodes w1) - 1) n') = warnings w1
                else (\<exists>e' w'. train w arg = Some (Inl e', w', iterators_after arg its1)
                        \<and> crash_wrapped (set_node w1 (length (nodes w1) - 1) n') e
                             (length (nodes w1) - 1) (e', w'))"
    by (cases s) (auto split: if_splits)
qed

text \<open>
  Instances: a unit whose training is finished gets the warning of its training step
  and none from the close; a unit with one open phase is trained and then stopped.
\<close>

theorem C8_witness:
  "map_option (\<lambda>r. (fst r, warnings (fst (snd r))))
     (train (demo_world (demo_flow [demo_node None None 1 1])) (ItList [SList [Arr [1]]]))
     = Some (Inr (), [finished_wrnstr 0])
   \<and> map_option (\<lambda>r. (fst r, demo_log (fst (snd r)) 0))
     (train (demo_world (demo_flow [demo_node None None 1 0])) (ItList [SList [Arr [1]]]))
     = Some (Inr (), [Trained [1] [], Stopped])"
proof -
  let ?its = "[SList [Arr [1::int]]]"
  let ?wa = "demo_world (demo_flow [demo_node None None 1 1])"
  let ?wb = "demo_world (demo_flow [demo_node None None 1 0])"
  have ca: "train_check_iterators (the_flow ?wa) (ItList ?its) = Inr ?its"
    and cb: "train_check_iterators (the_flow ?wb) (ItList ?its) = Inr ?its"
    by (simp_all add: train_eval2)
  have "\<exists>w1. train_nodes ?wa ?its [0..<length (nodes ?wa)] = Some (Inr (), w1, ?its)
          \<and> nodes w1 = [demo_node None None 1 1] \<and> warnings w1 = [finished_wrnstr 0]"
    by (simp add: train_eval2 train_while.simps warn_def training_finished_def)
  then obtain wa1 where a1: "train_nodes ?wa ?its [0..<length (nodes ?wa)] = Some (Inr (), wa1, ?its)"
    and a2: "nodes wa1 = [demo_node None None 1 1]" and a3: "warnings wa1 = [finished_wrnstr 0]"
    by blast
  have sa: "node_stop_training (last (nodes wa1)) = (Some training_finished, demo_node None None 1 1)"
    unfolding a2 by (simp add: train_eval2)
  have fa: "is_training_finished training_finished"
    by (simp add: is_training_finished_def training_finished_def)
  have na: "nodes wa1 \<noteq> []" by (simp add: a2)
  have "case node_stop_training (last (nodes wa1)) of
              (None, n') \<Rightarrow>
                train ?wa (ItList ?its) = Some (Inr (), set_node wa1 (length (nodes wa1) - 1) n',
                                    iterators_after (ItList ?its) ?its)
                \<and> warnings (set_node wa1 (length (nodes wa1) - 1) n') = warnings wa1
            | (Some e, n') \<Rightarrow>
                if is_training_finished e
                then train ?wa (ItList ?its) = Some (Inr (), set_node wa1 (length (nodes wa1) - 1) n',
                                         iterators_after (ItList ?its) ?its)
                     \<and> warnings (set_node wa1 (length (nodes wa1) - 1) n') = warnings wa1
                else (\<exists>e' w'. train ?wa (ItList ?its) = Some (Inl e', w', iterators_after (ItList ?its) ?its)
                        \<and> crash_wrapped (set_node wa1 (length (nodes wa1) - 1) n') e
                             (length (nodes wa1) - 1) (e', w'))"
    by (rule C8_train_closes_last_unit[of ?wa "ItList ?its" ?its wa1 ?its, THEN mp])
       (intro conjI ca a1 na)
  then have A: "map_option (\<lambda>r. (fst r, warnings (fst (snd r)))) (train ?wa (ItList ?its))
      = Some (Inr (), [finished_wrnstr 0])"
    unfolding sa using fa a3 by simp
  have "\<exists>w1. train_nodes ?wb ?its [0..<length (nodes ?wb)] = Some (Inr (), w1, ?its)
          \<and> nodes w1 = [(demo_node None None 1 0)\<lparr>nstate := (nstate (demo_node None None 1 0))\<lparr>d_log := [Trained [1] []]\<rparr>\<rparr>]"
    by (simp add: train_eval2 train_while.simps)
  then obtain wb1 where b1: "train_nodes ?wb ?its [0..<length (nodes ?wb)] = Some (Inr (), wb1, ?its)"
    and b2: "nodes wb1 = [(demo_node None None 1 0)\<lparr>nstate := (nstate (demo_node None None 1 0))\<lparr>d_log := [Trained [1] []]\<rparr>\<rparr>]"
    by blast
  have sb: "\<exists>n'. node_stop_training (last (nodes wb1)) = (None, n') \<and> d_log (nstate n') = [Trained [1] [], Stopped]"
    unfolding b2 by (simp add: train_eval2)
  then obtain nb' where sb1: "node_stop_training (last (nodes wb1)) = (None, nb')"
    and sb2: "d_log (nstate nb') = [Trained [1] [], Stopped]" by blast
  have nb: "nodes wb1 \<noteq> []" by (simp add: b2)
  have "case node_stop_training (last (nodes wb1)) of
              (None, n') \<Rightarrow>
                train ?wb (ItList ?its) = Some (Inr (), set_node wb1 (length (nodes wb1) - 1) n',
                                    iterators_after (ItList ?its) ?its)
                \<and> warnings (set_node wb1 (length (nodes wb1) - 1) n') = warnings wb1
            | (Some e, n') \<Rightarrow>
                if is_training_finished e
                then train ?wb (ItList ?its) = Some (Inr (), set_node wb1 (length (nodes wb1) - 1) n',
                                         iterators_after (ItList ?its) ?its)
                     \<and> warnings (set_node wb1 (length (nodes wb1) - 1) n') = warnings wb1
                else (\<exists>e' w'. train ?wb (ItList ?its) = Some (Inl e', w', iterators_after (ItList ?its) ?its)
                        \<and> crash_wrapped (set_node wb1 (length (nodes wb1) - 1) n') e
                             (length (nodes wb1) - 1) (e', w'))"
    by (rule C8_train_closes_last_unit[of ?wb "ItList ?its" ?its wb1 ?its, THEN mp])
       (intro conjI cb b1 nb)
  then have B: "map_option (\<lambda>r. (fst r, demo_log (fst (snd r)) 0)) (train ?wb (ItList ?its))
      = Some (Inr (), [Trained [1] [], Stopped])"
    unfolding sb1 using sb2 b2 by (simp add: demo_log_def set_node_with)
  show ?thesis using A B by simp
qed

section \<open>Training one unit\<close>










section \<open>Checkpoints\<close>

lemma onc_refl [simp]: "only_nodes_changed w w"
  by (simp add: only_nodes_changed_def nodes_def)



lemma onc_warn [simp]: "only_nodes_changed w (warn w m)"
  by (simp add: only_nodes_changed_def nodes_def warn_def)














lemma getattr_set_node [simp]: "getattr (set_node w i n) k = getattr w k"
  by (simp add: getattr_def set_node_def)














end
